theory Spec2Isabelle
  imports Main "HOL-Library.Word" "HOL-Library.AList"
begin

section \<open>Go values\<close>

text \<open>
  Go strings are byte sequences: \<^typ>\<open>string\<close> (a list of 8-bit characters) with the
  UTF-8 encoding of non-ASCII text written out byte by byte. Go's \<open>int\<close> is the 64-bit
  two's-complement integer of the usual build targets, \<open>int32\<close> the 32-bit one; both
  wrap around on overflow, and comparisons read them as signed (\<^const>\<open>sint\<close>).
\<close>

type_synonym go_int = "64 word"
type_synonym int32 = "32 word"

subsection \<open>Package strings\<close>

text \<open>\<open>strings.HasPrefix(s, prefix)\<close>.\<close>

fun HasPrefix :: "string \<Rightarrow> string \<Rightarrow> bool" where
  "HasPrefix s [] = True"
| "HasPrefix [] (p # ps) = False"
| "HasPrefix (c # cs) (p # ps) = (c = p \<and> HasPrefix cs ps)"

text \<open>\<open>strings.Contains(s, substr)\<close>: \<open>substr\<close> occurs in \<open>s\<close> as a contiguous run of bytes.\<close>

fun Contains :: "string \<Rightarrow> string \<Rightarrow> bool" where
  "Contains [] substr = (substr = [])"
| "Contains (c # cs) substr = (HasPrefix (c # cs) substr \<or> Contains cs substr)"

text \<open>
  \<open>strings.Split(s, sep)\<close> for a separator of one byte: the pieces of \<open>s\<close> between the
  occurrences of the separator, so one piece more than there are separators; the empty
  string gives the single piece \<open>""\<close>.
\<close>

fun Split :: "string \<Rightarrow> char \<Rightarrow> string list" where
  "Split [] sep = [[]]"
| "Split (c # cs) sep =
     (if c = sep then [] # Split cs sep
      else (case Split cs sep of
              [] \<Rightarrow> [[c]]
            | p # ps \<Rightarrow> (c # p) # ps))"

text \<open>\<open>strings.ReplaceAll(s, old, "")\<close> for an \<open>old\<close> of one byte: every such byte is removed.\<close>

definition RemoveAll :: "string \<Rightarrow> char \<Rightarrow> string" where
  "RemoveAll s old = filter (\<lambda>c. c \<noteq> old) s"

subsection \<open>Package strconv\<close>

datatype num_error = ErrSyntax | ErrRange

text \<open>
  The errors of package \<open>parser\<close>, one constructor for each error value the package
  builds; a wrapped error (\<open>%w\<close>) is the constructor's argument.
\<close>

datatype error =
    ReaderNil                     \<comment> \<open>"reader cannot be nil"\<close>
  | ReadCSVFailed string          \<comment> \<open>"failed to read CSV: %w"\<close>
  | CSVEmpty                      \<comment> \<open>"CSV file is empty"\<close>
  | NoDataRecords                 \<comment> \<open>"no data records found"\<close>
  | CardNumberEmpty               \<comment> \<open>"card number cannot be empty"\<close>
  | InvalidEntryDate error        \<comment> \<open>"invalid entry date: %w"\<close>
  | InvalidExitDate error         \<comment> \<open>"invalid exit date: %w"\<close>
  | InvalidDateFormat string      \<comment> \<open>"invalid date format: %s"\<close>
  | NumError string num_error     \<comment> \<open>the \<open>*strconv.NumError\<close> of \<open>Atoi\<close> on the given text\<close>

text \<open>
  The digit loop of \<open>strconv.ParseUint(s, 10, 64)\<close>: bytes are read left to right, a
  byte that is no decimal digit is a syntax error, and a value that leaves the unsigned
  64-bit range is a range error, whichever comes first.
\<close>

fun parseDigits :: "nat \<Rightarrow> string \<Rightarrow> num_error + nat" where
  "parseDigits n [] = Inr n"
| "parseDigits n (c # cs) =
     (if 48 \<le> (of_char c :: nat) \<and> (of_char c :: nat) \<le> 57
      then (let n1 = n * 10 + ((of_char c :: nat) - 48)
            in if 2 ^ 64 \<le> n1 then Inl ErrRange else parseDigits n1 cs)
      else Inl ErrSyntax)"

text \<open>
  \<open>strconv.Atoi(s)\<close> on 64-bit \<open>int\<close>: an optional sign \<open>+\<close> or \<open>-\<close>, then at least one
  decimal digit and nothing else; a value outside \<open>-2^63 .. 2^63 - 1\<close> is a range error.
\<close>

definition Atoi :: "string \<Rightarrow> error + go_int" where
  "Atoi s =
     (case s of
        [] \<Rightarrow> Inl (NumError s ErrSyntax)
      | c # cs \<Rightarrow>
          (let neg = (c = CHR ''-'');
               ds = (if c = CHR ''+'' \<or> c = CHR ''-'' then cs else s)
           in if ds = [] then Inl (NumError s ErrSyntax)
              else (case parseDigits 0 ds of
                      Inl e \<Rightarrow> Inl (NumError s e)
                    | Inr un \<Rightarrow>
                        if \<not> neg \<and> 2 ^ 63 \<le> un then Inl (NumError s ErrRange)
                        else if neg \<and> 2 ^ 63 < un then Inl (NumError s ErrRange)
                        else Inr (if neg then - word_of_nat un else word_of_nat un))))"

subsection \<open>Package time\<close>

text \<open>
  The function \<open>time.Date\<close> of the standard library, as the releases of Go up to 1.22
  compute it (the repository asks for Go 1.21 or later), on 64-bit machine integers that
  wrap around. A \<open>time.Time\<close> is given by the three things that determine it: the seconds
  since the Unix epoch (\<open>Time.Unix()\<close>), the nanoseconds within the second and the
  location; the only location used is \<open>time.UTC\<close>, whose offset is zero, so that \<open>Date\<close>
  adjusts nothing for a zone.
\<close>

datatype location = UTC

datatype time = Time (Unix: go_int) (Nanosecond: int32) (Location: location)

text \<open>The operator \<open>/\<close> of Go on \<open>int\<close>: the quotient truncated towards zero.\<close>

definition quo :: "go_int \<Rightarrow> go_int \<Rightarrow> go_int" where
  "quo a b = word_of_int (sgn (sint a) * sgn (sint b) * (\<bar>sint a\<bar> div \<bar>sint b\<bar>))"

text \<open>\<open>norm(hi, lo, base)\<close>: brings \<open>lo\<close> into the range from 0 to \<open>base - 1\<close>, carrying into \<open>hi\<close>.\<close>

definition norm :: "go_int \<Rightarrow> go_int \<Rightarrow> go_int \<Rightarrow> go_int \<times> go_int" where
  "norm hi0 lo0 base =
     (let (hi, lo) = (if sint lo0 < 0
                      then (let n = quo (- lo0 - 1) base + 1 in (hi0 - n, lo0 + n * base))
                      else (hi0, lo0))
      in if sint base \<le> sint lo
         then (let n = quo lo base in (hi + n, lo - n * base))
         else (hi, lo))"

text \<open>The table \<open>daysBefore\<close>: the days of a common year before each month.\<close>

definition daysBefore :: "nat list" where
  "daysBefore = [0, 31, 59, 90, 120, 151, 181, 212, 243, 273, 304, 334, 365]"

text \<open>
  \<open>isLeap(year)\<close>: \<open>year%4 == 0 && (year%100 != 0 || year%400 == 0)\<close>. A remainder is 0
  under Go's truncating \<open>%\<close> exactly when it is under \<open>mod\<close>.
\<close>

definition isLeap :: "go_int \<Rightarrow> bool" where
  "isLeap year = (sint year mod 4 = 0 \<and> (sint year mod 100 \<noteq> 0 \<or> sint year mod 400 = 0))"

text \<open>
  \<open>daysSinceEpoch(year)\<close>: the days from the first of January of the year -292277022399
  to that of \<open>year\<close>, counted in cycles of 400, 100, 4 and 1 years on \<open>uint64\<close>, where
  \<open>div\<close> is the unsigned division.
\<close>

definition daysSinceEpoch :: "go_int \<Rightarrow> 64 word" where
  "daysSinceEpoch year =
     (let y = year + 292277022399;
          n = y div 400;
          y = y - 400 * n;
          d = 146097 * n;
          n = y div 100;
          y = y - 100 * n;
          d = d + 36524 * n;
          n = y div 4;
          y = y - 4 * n;
          d = d + 1461 * n;
          n = y;
          d = d + 365 * n
      in d)"

text \<open>
  \<open>time.Date(year, month, day, hour, min, sec, nsec, loc)\<close>. The last constant is
  \<open>absoluteToInternal + internalToUnix\<close>.
\<close>

definition Date ::
  "go_int \<Rightarrow> go_int \<Rightarrow> go_int \<Rightarrow> go_int \<Rightarrow> go_int \<Rightarrow> go_int \<Rightarrow> go_int \<Rightarrow> location \<Rightarrow> time" where
  "Date year0 month0 day0 hour0 min0 sec0 nsec0 loc =
     (let m = month0 - 1;
          (year, m) = norm year0 m 12;
          month = m + 1;
          (second, nsec) = norm sec0 nsec0 1000000000;
          (minute, second) = norm min0 second 60;
          (hour, minute) = norm hour0 minute 60;
          (day, hour) = norm day0 hour 24;
          d = daysSinceEpoch year;
          d = d + word_of_nat (daysBefore ! (nat (sint month) - 1));
          d = (if isLeap year \<and> 3 \<le> sint month then d + 1 else d);
          d = d + (day - 1);
          absolute = d * 86400;
          absolute = absolute + (hour * 3600 + minute * 60 + second);
          unix = absolute + (- 9223371966579724800 + (- 62135596800))
      in Time unix (ucast nsec) loc)"

section \<open>Package parser: the ETC CSV parser\<close>

text \<open>
  The parser of the ETC usage statements, \<open>ETCCSVParser\<close>; the source lines named in this
  section are those of its file (\<open>src/unnamed/part_013\<close>).
\<close>

subsection \<open>Dates\<close>

text \<open>\<open>parseDate\<close> (source lines 255 to 286).\<close>

definition parseDate :: "string \<Rightarrow> error + time" where
  "parseDate dateStr =
     (let parts = Split dateStr (CHR ''/'')
      in if length parts \<noteq> 3 then Inl (InvalidDateFormat dateStr)
         else (case Atoi (parts ! 0) of
                 Inl err \<Rightarrow> Inl err
               | Inr year0 \<Rightarrow>
                   (let year = (if sint year0 < 100
                                then (if sint year0 < 50 then year0 + 2000 else year0 + 1900)
                                else year0)
                    in (case Atoi (parts ! 1) of
                          Inl err \<Rightarrow> Inl err
                        | Inr month \<Rightarrow>
                            (case Atoi (parts ! 2) of
                               Inl err \<Rightarrow> Inl err
                             | Inr day \<Rightarrow> Inr (Date year month day 0 0 0 0 UTC))))))"

subsection \<open>The calendar\<close>

text \<open>
  What the specification calls the calendar date at midnight UTC, under standard calendar
  arithmetic, to compare \<open>time.Date\<close> with: the Gregorian calendar with its leap years,
  the lengths of its months, and the days from the first of January of the year 1 to that
  of a year \<open>y\<close>.
\<close>

definition leap_year :: "int \<Rightarrow> bool" where
  "leap_year y = (y mod 4 = 0 \<and> (y mod 100 \<noteq> 0 \<or> y mod 400 = 0))"

definition month_length :: "bool \<Rightarrow> nat \<Rightarrow> int" where
  "month_length leap m =
     (if m = 2 then (if leap then 29 else 28)
      else if m = 4 \<or> m = 6 \<or> m = 9 \<or> m = 11 then 30
      else 31)"

primrec days_in_months :: "bool \<Rightarrow> nat \<Rightarrow> int" where
  "days_in_months leap 0 = 0"
| "days_in_months leap (Suc k) = days_in_months leap k + month_length leap (Suc k)"

definition days_before_year :: "int \<Rightarrow> int" where
  "days_before_year y = 365 * (y - 1) + (y - 1) div 4 - (y - 1) div 100 + (y - 1) div 400"

text \<open>
  The Unix time of midnight UTC on the calendar date \<open>(y, m, d)\<close>: a month outside 1 to
  12 is carried into the year, and the day is counted on from the first of that month, so
  that a day outside the month runs into the months after or before it.
\<close>

definition calendar_midnight :: "int \<Rightarrow> int \<Rightarrow> int \<Rightarrow> int" where
  "calendar_midnight y m d =
     86400 * (days_before_year (y + (m - 1) div 12) - days_before_year 1970 +
              days_in_months (leap_year (y + (m - 1) div 12)) (nat ((m - 1) mod 12)) +
              (d - 1))"

subsection \<open>Records\<close>

text \<open>\<open>ActualETCRecord\<close>, a row of an ETC usage statement (source lines 17 to 33).\<close>

record ActualETCRecord =
  EntryDate :: string
  EntryTime :: string
  ExitDate :: string
  ExitTime :: string
  EntryIC :: string
  ExitIC :: string
  RouteInfo :: string
  ETCAmount :: go_int
  NormalAmount :: go_int
  DiscountApplied :: go_int
  Mileage :: go_int
  VehicleClass :: go_int
  VehicleNumber :: string
  CardNumber :: string
  Notes :: string

text \<open>The zero value \<open>ActualETCRecord{}\<close>.\<close>

definition zeroRecord :: ActualETCRecord where
  "zeroRecord =
     \<lparr>EntryDate = [], EntryTime = [], ExitDate = [], ExitTime = [], EntryIC = [],
      ExitIC = [], RouteInfo = [], ETCAmount = 0, NormalAmount = 0, DiscountApplied = 0,
      Mileage = 0, VehicleClass = 0, VehicleNumber = [], CardNumber = [], Notes = []\<rparr>"

text \<open>
  \<open>ETCRecord\<close>, the simplified record (\<open>csv_parser.go\<close>); its fields carry the prefix
  \<open>simple_\<close> here, three of them having the names of fields of \<open>ActualETCRecord\<close>.
\<close>

record ETCRecord =
  simple_Date :: time
  simple_EntryIC :: string
  simple_ExitIC :: string
  simple_Route :: string
  simple_VehicleType :: string
  simple_Amount :: go_int
  simple_CardNumber :: string

subsection \<open>Formatting\<close>

text \<open>The verb \<open>%d\<close> of package \<open>fmt\<close>: decimal digits, a minus sign before a negative value.\<close>

function decimal :: "nat \<Rightarrow> string" where
  "decimal n =
     (if n < 10 then [''0123456789'' ! n]
      else decimal (n div 10) @ [''0123456789'' ! (n mod 10)])"
  by pat_completeness auto
termination
  by (relation "measure (\<lambda>n. n)") auto

declare decimal.simps [simp del]

definition fmt_d :: "int \<Rightarrow> string" where
  "fmt_d i = (if i < 0 then CHR ''-'' # decimal (nat (- i)) else decimal (nat i))"

subsection \<open>Fields and amounts\<close>

text \<open>
  \<open>getFieldSafe\<close> (source lines 321 to 326). The index is a natural number here: the
  calls in the package pass the literals 6 to 14 (the 11 through \<open>ParseVehicleClass\<close>).
\<close>

definition getFieldSafe :: "string list \<Rightarrow> nat \<Rightarrow> string" where
  "getFieldSafe record index = (if index < length record then record ! index else [])"

text \<open>
  \<open>parseAmount\<close> (source lines 205 to 224): commas are removed, the rest is handed to
  \<open>Atoi\<close>, on either side of the test for a leading minus sign.
\<close>

definition parseAmount :: "string \<Rightarrow> error + go_int" where
  "parseAmount s0 =
     (let s = RemoveAll s0 (CHR '','')
      in if HasPrefix s ''-''
         then (case Atoi s of Inl err \<Rightarrow> Inl err | Inr v \<Rightarrow> Inr v)
         else (case Atoi s of Inl err \<Rightarrow> Inl err | Inr v \<Rightarrow> Inr v))"

text \<open>\<open>ParseVehicleClass\<close> (source lines 409 to 419).\<close>

definition ParseVehicleClass :: "string list \<Rightarrow> nat \<Rightarrow> go_int" where
  "ParseVehicleClass record fieldIndex =
     (let fieldValue = getFieldSafe record fieldIndex
      in if fieldValue \<noteq> []
         then (case Atoi fieldValue of Inl err \<Rightarrow> 0 | Inr class \<Rightarrow> class)
         else 0)"

subsection \<open>Validation and conversion\<close>

text \<open>\<open>ValidateRecord\<close> (source lines 227 to 252); \<open>None\<close> is the nil error.\<close>

definition ValidateRecord :: "ActualETCRecord \<Rightarrow> error option" where
  "ValidateRecord r =
     (if CardNumber r = [] then Some CardNumberEmpty
      else (case (if EntryDate r \<noteq> []
                  then (case parseDate (EntryDate r) of
                          Inl err \<Rightarrow> Some (InvalidEntryDate err)
                        | Inr _ \<Rightarrow> None)
                  else None) of
              Some err \<Rightarrow> Some err
            | None \<Rightarrow>
                (if ExitDate r \<noteq> []
                 then (case parseDate (ExitDate r) of
                         Inl err \<Rightarrow> Some (InvalidExitDate err)
                       | Inr _ \<Rightarrow> None)
                 else None)))"

text \<open>
  \<open>ConvertToSimpleRecord\<close> (source lines 289 to 318). The negation \<open>-amount\<close> is the
  wrapping one of the machine integer.
\<close>

definition ConvertToSimpleRecord :: "ActualETCRecord \<Rightarrow> error + ETCRecord" where
  "ConvertToSimpleRecord actual =
     (case (case parseDate (ExitDate actual) of
              Inl err \<Rightarrow> parseDate (EntryDate actual)
            | Inr d \<Rightarrow> Inr d) of
        Inl err \<Rightarrow> Inl err
      | Inr date \<Rightarrow>
          (let amount = ETCAmount actual;
               amount = (if amount = 0 then NormalAmount actual else amount);
               amount = (if sint amount < 0 then - amount else amount)
           in Inr \<lparr>simple_Date = date,
                   simple_EntryIC = EntryIC actual,
                   simple_ExitIC = ExitIC actual,
                   simple_Route = RouteInfo actual,
                   simple_VehicleType = ''Class '' @ fmt_d (sint (VehicleClass actual)),
                   simple_Amount = amount,
                   simple_CardNumber = CardNumber actual\<rparr>))"

subsection \<open>Header names\<close>

text \<open>
  The header texts of the source, as their UTF-8 bytes; the comment after each gives its
  code points. \<open>headerKeywords\<close> are the five patterns of the header test (source lines
  88 to 90), the other lists the candidate names of one field each, in the order in which
  \<open>parseWithHeaders\<close> passes them to \<open>getFieldByHeader\<close>.
\<close>

definition headerKeywords :: "string list" where
  "headerKeywords =
    [[CHR 0xE5, CHR 0x88, CHR 0xA9, CHR 0xE7, CHR 0x94, CHR 0xA8, CHR 0xE5, CHR 0xB9, CHR 0xB4, CHR 0xE6, CHR 0x9C, CHR 0x88, CHR 0xE6, CHR 0x97, CHR 0xA5] \<comment> \<open>U+5229 U+7528 U+5E74 U+6708 U+65E5\<close>,
     [CHR 0xE6, CHR 0x99, CHR 0x82, CHR 0xE5, CHR 0x88, CHR 0xBB] \<comment> \<open>U+6642 U+523B\<close>,
     [CHR 0xE5, CHR 0x88, CHR 0xA9, CHR 0xE7, CHR 0x94, CHR 0xA8, CHR 0x49, CHR 0x43] \<comment> \<open>U+5229 U+7528 I C\<close>,
     [CHR 0xE6, CHR 0x96, CHR 0x99, CHR 0xE9, CHR 0x87, CHR 0x91] \<comment> \<open>U+6599 U+91D1\<close>,
     [CHR 0xE3, CHR 0x82, CHR 0xAB, CHR 0xE3, CHR 0x83, CHR 0xBC, CHR 0xE3, CHR 0x83, CHR 0x89, CHR 0xE7, CHR 0x95, CHR 0xAA, CHR 0xE5, CHR 0x8F, CHR 0xB7] \<comment> \<open>U+30AB U+30FC U+30C9 U+756A U+53F7\<close>
    ]"

definition EntryDate_headers :: "string list" where \<comment> \<open>source line 334\<close>
  "EntryDate_headers =
    [[CHR 0xE5, CHR 0x88, CHR 0xA9, CHR 0xE7, CHR 0x94, CHR 0xA8, CHR 0xE5, CHR 0xB9, CHR 0xB4, CHR 0xE6, CHR 0x9C, CHR 0x88, CHR 0xE6, CHR 0x97, CHR 0xA5, CHR 0xEF, CHR 0xBC, CHR 0x88, CHR 0xE5, CHR 0x85, CHR 0xA5, CHR 0xEF, CHR 0xBC, CHR 0x89] \<comment> \<open>U+5229 U+7528 U+5E74 U+6708 U+65E5 U+FF08 U+5165 U+FF09\<close>,
     [CHR 0xE5, CHR 0x88, CHR 0xA9, CHR 0xE7, CHR 0x94, CHR 0xA8, CHR 0xE5, CHR 0xB9, CHR 0xB4, CHR 0xE6, CHR 0x9C, CHR 0x88, CHR 0xE6, CHR 0x97, CHR 0xA5, CHR 0x28, CHR 0xE5, CHR 0x85, CHR 0xA5, CHR 0x29] \<comment> \<open>U+5229 U+7528 U+5E74 U+6708 U+65E5 ( U+5165 )\<close>,
     [CHR 0xE5, CHR 0x88, CHR 0xA9, CHR 0xE7, CHR 0x94, CHR 0xA8, CHR 0xE5, CHR 0xB9, CHR 0xB4, CHR 0xE6, CHR 0x9C, CHR 0x88, CHR 0xE6, CHR 0x97, CHR 0xA5, CHR 0xEF, CHR 0xBC, CHR 0x88, CHR 0xE8, CHR 0x87, CHR 0xAA, CHR 0xEF, CHR 0xBC, CHR 0x89] \<comment> \<open>U+5229 U+7528 U+5E74 U+6708 U+65E5 U+FF08 U+81EA U+FF09\<close>,
     [CHR 0xE5, CHR 0x85, CHR 0xA5, CHR 0xE5, CHR 0x8F, CHR 0xA3, CHR 0xE6, CHR 0x97, CHR 0xA5, CHR 0xE4, CHR 0xBB, CHR 0x98] \<comment> \<open>U+5165 U+53E3 U+65E5 U+4ED8\<close>
    ]"

definition EntryTime_headers :: "string list" where \<comment> \<open>source line 335\<close>
  "EntryTime_headers =
    [[CHR 0xE6, CHR 0x99, CHR 0x82, CHR 0xE5, CHR 0x88, CHR 0xBB, CHR 0xEF, CHR 0xBC, CHR 0x88, CHR 0xE5, CHR 0x85, CHR 0xA5, CHR 0xEF, CHR 0xBC, CHR 0x89] \<comment> \<open>U+6642 U+523B U+FF08 U+5165 U+FF09\<close>,
     [CHR 0xE6, CHR 0x99, CHR 0x82, CHR 0xE5, CHR 0x88, CHR 0xBB, CHR 0x28, CHR 0xE5, CHR 0x85, CHR 0xA5, CHR 0x29] \<comment> \<open>U+6642 U+523B ( U+5165 )\<close>,
     [CHR 0xE6, CHR 0x99, CHR 0x82, CHR 0xE5, CHR 0x88, CHR 0x86, CHR 0xEF, CHR 0xBC, CHR 0x88, CHR 0xE8, CHR 0x87, CHR 0xAA, CHR 0xEF, CHR 0xBC, CHR 0x89] \<comment> \<open>U+6642 U+5206 U+FF08 U+81EA U+FF09\<close>,
     [CHR 0xE5, CHR 0x85, CHR 0xA5, CHR 0xE5, CHR 0x8F, CHR 0xA3, CHR 0xE6, CHR 0x99, CHR 0x82, CHR 0xE5, CHR 0x88, CHR 0xBB] \<comment> \<open>U+5165 U+53E3 U+6642 U+523B\<close>
    ]"

definition ExitDate_headers :: "string list" where \<comment> \<open>source line 336\<close>
  "ExitDate_headers =
    [[CHR 0xE5, CHR 0x88, CHR 0xA9, CHR 0xE7, CHR 0x94, CHR 0xA8, CHR 0xE5, CHR 0xB9, CHR 0xB4, CHR 0xE6, CHR 0x9C, CHR 0x88, CHR 0xE6, CHR 0x97, CHR 0xA5, CHR 0xEF, CHR 0xBC, CHR 0x88, CHR 0xE5, CHR 0x87, CHR 0xBA, CHR 0xEF, CHR 0xBC, CHR 0x89] \<comment> \<open>U+5229 U+7528 U+5E74 U+6708 U+65E5 U+FF08 U+51FA U+FF09\<close>,
     [CHR 0xE5, CHR 0x88, CHR 0xA9, CHR 0xE7, CHR 0x94, CHR 0xA8, CHR 0xE5, CHR 0xB9, CHR 0xB4, CHR 0xE6, CHR 0x9C, CHR 0x88, CHR 0xE6, CHR 0x97, CHR 0xA5, CHR 0x28, CHR 0xE5, CHR 0x87, CHR 0xBA, CHR 0x29] \<comment> \<open>U+5229 U+7528 U+5E74 U+6708 U+65E5 ( U+51FA )\<close>,
     [CHR 0xE5, CHR 0x88, CHR 0xA9, CHR 0xE7, CHR 0x94, CHR 0xA8, CHR 0xE5, CHR 0xB9, CHR 0xB4, CHR 0xE6, CHR 0x9C, CHR 0x88, CHR 0xE6, CHR 0x97, CHR 0xA5, CHR 0xEF, CHR 0xBC, CHR 0x88, CHR 0xE8, CHR 0x87, CHR 0xB3, CHR 0xEF, CHR 0xBC, CHR 0x89] \<comment> \<open>U+5229 U+7528 U+5E74 U+6708 U+65E5 U+FF08 U+81F3 U+FF09\<close>,
     [CHR 0xE5, CHR 0x87, CHR 0xBA, CHR 0xE5, CHR 0x8F, CHR 0xA3, CHR 0xE6, CHR 0x97, CHR 0xA5, CHR 0xE4, CHR 0xBB, CHR 0x98] \<comment> \<open>U+51FA U+53E3 U+65E5 U+4ED8\<close>
    ]"

definition ExitTime_headers :: "string list" where \<comment> \<open>source line 337\<close>
  "ExitTime_headers =
    [[CHR 0xE6, CHR 0x99, CHR 0x82, CHR 0xE5, CHR 0x88, CHR 0xBB, CHR 0xEF, CHR 0xBC, CHR 0x88, CHR 0xE5, CHR 0x87, CHR 0xBA, CHR 0xEF, CHR 0xBC, CHR 0x89] \<comment> \<open>U+6642 U+523B U+FF08 U+51FA U+FF09\<close>,
     [CHR 0xE6, CHR 0x99, CHR 0x82, CHR 0xE5, CHR 0x88, CHR 0xBB, CHR 0x28, CHR 0xE5, CHR 0x87, CHR 0xBA, CHR 0x29] \<comment> \<open>U+6642 U+523B ( U+51FA )\<close>,
     [CHR 0xE6, CHR 0x99, CHR 0x82, CHR 0xE5, CHR 0x88, CHR 0x86, CHR 0xEF, CHR 0xBC, CHR 0x88, CHR 0xE8, CHR 0x87, CHR 0xB3, CHR 0xEF, CHR 0xBC, CHR 0x89] \<comment> \<open>U+6642 U+5206 U+FF08 U+81F3 U+FF09\<close>,
     [CHR 0xE5, CHR 0x87, CHR 0xBA, CHR 0xE5, CHR 0x8F, CHR 0xA3, CHR 0xE6, CHR 0x99, CHR 0x82, CHR 0xE5, CHR 0x88, CHR 0xBB] \<comment> \<open>U+51FA U+53E3 U+6642 U+523B\<close>
    ]"

definition EntryIC_headers :: "string list" where \<comment> \<open>source line 338\<close>
  "EntryIC_headers =
    [[CHR 0xE5, CHR 0x88, CHR 0xA9, CHR 0xE7, CHR 0x94, CHR 0xA8, CHR 0x49, CHR 0x43, CHR 0xEF, CHR 0xBC, CHR 0x88, CHR 0xE5, CHR 0x85, CHR 0xA5, CHR 0xEF, CHR 0xBC, CHR 0x89] \<comment> \<open>U+5229 U+7528 I C U+FF08 U+5165 U+FF09\<close>,
     [CHR 0xE5, CHR 0x88, CHR 0xA9, CHR 0xE7, CHR 0x94, CHR 0xA8, CHR 0x49, CHR 0x43, CHR 0x28, CHR 0xE5, CHR 0x85, CHR 0xA5, CHR 0x29] \<comment> \<open>U+5229 U+7528 I C ( U+5165 )\<close>,
     [CHR 0xE5, CHR 0x88, CHR 0xA9, CHR 0xE7, CHR 0x94, CHR 0xA8, CHR 0xEF, CHR 0xBC, CHR 0xA9, CHR 0xEF, CHR 0xBC, CHR 0xA3, CHR 0xEF, CHR 0xBC, CHR 0x88, CHR 0xE8, CHR 0x87, CHR 0xAA, CHR 0xEF, CHR 0xBC, CHR 0x89] \<comment> \<open>U+5229 U+7528 U+FF29 U+FF23 U+FF08 U+81EA U+FF09\<close>,
     [CHR 0xE5, CHR 0x85, CHR 0xA5, CHR 0xE5, CHR 0x8F, CHR 0xA3, CHR 0x49, CHR 0x43] \<comment> \<open>U+5165 U+53E3 I C\<close>,
     [CHR 0xE5, CHR 0x85, CHR 0xA5, CHR 0xE5, CHR 0x8F, CHR 0xA3] \<comment> \<open>U+5165 U+53E3\<close>
    ]"

definition ExitIC_headers :: "string list" where \<comment> \<open>source line 339\<close>
  "ExitIC_headers =
    [[CHR 0xE5, CHR 0x88, CHR 0xA9, CHR 0xE7, CHR 0x94, CHR 0xA8, CHR 0x49, CHR 0x43, CHR 0xEF, CHR 0xBC, CHR 0x88, CHR 0xE5, CHR 0x87, CHR 0xBA, CHR 0xEF, CHR 0xBC, CHR 0x89] \<comment> \<open>U+5229 U+7528 I C U+FF08 U+51FA U+FF09\<close>,
     [CHR 0xE5, CHR 0x88, CHR 0xA9, CHR 0xE7, CHR 0x94, CHR 0xA8, CHR 0x49, CHR 0x43, CHR 0x28, CHR 0xE5, CHR 0x87, CHR 0xBA, CHR 0x29] \<comment> \<open>U+5229 U+7528 I C ( U+51FA )\<close>,
     [CHR 0xE5, CHR 0x88, CHR 0xA9, CHR 0xE7, CHR 0x94, CHR 0xA8, CHR 0xEF, CHR 0xBC, CHR 0xA9, CHR 0xEF, CHR 0xBC, CHR 0xA3, CHR 0xEF, CHR 0xBC, CHR 0x88, CHR 0xE8, CHR 0x87, CHR 0xB3, CHR 0xEF, CHR 0xBC, CHR 0x89] \<comment> \<open>U+5229 U+7528 U+FF29 U+FF23 U+FF08 U+81F3 U+FF09\<close>,
     [CHR 0xE5, CHR 0x87, CHR 0xBA, CHR 0xE5, CHR 0x8F, CHR 0xA3, CHR 0x49, CHR 0x43] \<comment> \<open>U+51FA U+53E3 I C\<close>,
     [CHR 0xE5, CHR 0x87, CHR 0xBA, CHR 0xE5, CHR 0x8F, CHR 0xA3] \<comment> \<open>U+51FA U+53E3\<close>
    ]"

definition RouteInfo_headers :: "string list" where \<comment> \<open>source line 340\<close>
  "RouteInfo_headers =
    [[CHR 0xE7, CHR 0xB5, CHR 0x8C, CHR 0xE8, CHR 0xB7, CHR 0xAF, CHR 0xE6, CHR 0x83, CHR 0x85, CHR 0xE5, CHR 0xA0, CHR 0xB1] \<comment> \<open>U+7D4C U+8DEF U+60C5 U+5831\<close>,
     [CHR 0xE8, CHR 0xB7, CHR 0xAF, CHR 0xE7, CHR 0xB7, CHR 0x9A] \<comment> \<open>U+8DEF U+7DDA\<close>,
     [CHR 0xE7, CHR 0xB5, CHR 0x8C, CHR 0xE8, CHR 0xB7, CHR 0xAF] \<comment> \<open>U+7D4C U+8DEF\<close>
    ]"

definition NormalAmount_headers :: "string list" where \<comment> \<open>source line 344\<close>
  "NormalAmount_headers =
    [[CHR 0xE5, CHR 0x89, CHR 0xB2, CHR 0xE5, CHR 0xBC, CHR 0x95, CHR 0xE5, CHR 0x89, CHR 0x8D, CHR 0xE6, CHR 0x96, CHR 0x99, CHR 0xE9, CHR 0x87, CHR 0x91] \<comment> \<open>U+5272 U+5F15 U+524D U+6599 U+91D1\<close>,
     [CHR 0xE9, CHR 0x80, CHR 0x9A, CHR 0xE8, CHR 0xA1, CHR 0x8C, CHR 0xE6, CHR 0x96, CHR 0x99, CHR 0xE9, CHR 0x87, CHR 0x91] \<comment> \<open>U+901A U+884C U+6599 U+91D1\<close>,
     [CHR 0xE9, CHR 0x80, CHR 0x9A, CHR 0xE5, CHR 0xB8, CHR 0xB8, CHR 0xE6, CHR 0x96, CHR 0x99, CHR 0xE9, CHR 0x87, CHR 0x91] \<comment> \<open>U+901A U+5E38 U+6599 U+91D1\<close>
    ]"

definition DiscountApplied_headers :: "string list" where \<comment> \<open>source line 353\<close>
  "DiscountApplied_headers =
    [[CHR 0xEF, CHR 0xBC, CHR 0xA5, CHR 0xEF, CHR 0xBC, CHR 0xB4, CHR 0xEF, CHR 0xBC, CHR 0xA3, CHR 0xE5, CHR 0x89, CHR 0xB2, CHR 0xE5, CHR 0xBC, CHR 0x95, CHR 0xE9, CHR 0xA1, CHR 0x8D] \<comment> \<open>U+FF25 U+FF34 U+FF23 U+5272 U+5F15 U+984D\<close>,
     [CHR 0x45, CHR 0x54, CHR 0x43, CHR 0xE5, CHR 0x89, CHR 0xB2, CHR 0xE5, CHR 0xBC, CHR 0x95, CHR 0xE9, CHR 0xA1, CHR 0x8D] \<comment> \<open>E T C U+5272 U+5F15 U+984D\<close>,
     [CHR 0xE5, CHR 0x89, CHR 0xB2, CHR 0xE5, CHR 0xBC, CHR 0x95, CHR 0xE9, CHR 0xA1, CHR 0x8D] \<comment> \<open>U+5272 U+5F15 U+984D\<close>
    ]"

definition ETCAmount_headers :: "string list" where \<comment> \<open>source line 362\<close>
  "ETCAmount_headers =
    [[CHR 0xE9, CHR 0x80, CHR 0x9A, CHR 0xE8, CHR 0xA1, CHR 0x8C, CHR 0xE6, CHR 0x96, CHR 0x99, CHR 0xE9, CHR 0x87, CHR 0x91] \<comment> \<open>U+901A U+884C U+6599 U+91D1\<close>,
     [CHR 0x45, CHR 0x54, CHR 0x43, CHR 0xE6, CHR 0x96, CHR 0x99, CHR 0xE9, CHR 0x87, CHR 0x91] \<comment> \<open>E T C U+6599 U+91D1\<close>,
     [CHR 0xE6, CHR 0x96, CHR 0x99, CHR 0xE9, CHR 0x87, CHR 0x91] \<comment> \<open>U+6599 U+91D1\<close>
    ]"

definition PostPayment_headers :: "string list" where \<comment> \<open>source line 371\<close>
  "PostPayment_headers =
    [[CHR 0xE5, CHR 0xBE, CHR 0x8C, CHR 0xE7, CHR 0xB4, CHR 0x8D, CHR 0xE6, CHR 0x96, CHR 0x99, CHR 0xE9, CHR 0x87, CHR 0x91] \<comment> \<open>U+5F8C U+7D0D U+6599 U+91D1\<close>,
     [CHR 0xE5, CHR 0xBE, CHR 0x8C, CHR 0xE6, CHR 0x89, CHR 0x95, CHR 0xE6, CHR 0x96, CHR 0x99, CHR 0xE9, CHR 0x87, CHR 0x91] \<comment> \<open>U+5F8C U+6255 U+6599 U+91D1\<close>
    ]"

definition VehicleClass_headers :: "string list" where \<comment> \<open>source line 381\<close>
  "VehicleClass_headers =
    [[CHR 0xE8, CHR 0xBB, CHR 0x8A, CHR 0xE7, CHR 0xA8, CHR 0xAE] \<comment> \<open>U+8ECA U+7A2E\<close>,
     [CHR 0xE8, CHR 0xBB, CHR 0x8A, CHR 0xE4, CHR 0xB8, CHR 0xA1, CHR 0xE5, CHR 0x8C, CHR 0xBA, CHR 0xE5, CHR 0x88, CHR 0x86] \<comment> \<open>U+8ECA U+4E21 U+533A U+5206\<close>,
     [CHR 0xE8, CHR 0xBB, CHR 0x8A, CHR 0xE7, CHR 0xA8, CHR 0xAE, CHR 0xE5, CHR 0x8C, CHR 0xBA, CHR 0xE5, CHR 0x88, CHR 0x86] \<comment> \<open>U+8ECA U+7A2E U+533A U+5206\<close>
    ]"

definition VehicleNumber_headers :: "string list" where \<comment> \<open>source line 389\<close>
  "VehicleNumber_headers =
    [[CHR 0xE8, CHR 0xBB, CHR 0x8A, CHR 0xE4, CHR 0xB8, CHR 0xA1, CHR 0xE7, CHR 0x95, CHR 0xAA, CHR 0xE5, CHR 0x8F, CHR 0xB7] \<comment> \<open>U+8ECA U+4E21 U+756A U+53F7\<close>,
     [CHR 0xE3, CHR 0x83, CHR 0x8A, CHR 0xE3, CHR 0x83, CHR 0xB3, CHR 0xE3, CHR 0x83, CHR 0x90, CHR 0xE3, CHR 0x83, CHR 0xBC] \<comment> \<open>U+30CA U+30F3 U+30D0 U+30FC\<close>,
     [CHR 0xE8, CHR 0xBB, CHR 0x8A, CHR 0xE7, CHR 0x95, CHR 0xAA] \<comment> \<open>U+8ECA U+756A\<close>
    ]"

definition CardNumber_headers :: "string list" where \<comment> \<open>source line 390\<close>
  "CardNumber_headers =
    [[CHR 0xEF, CHR 0xBC, CHR 0xA5, CHR 0xEF, CHR 0xBC, CHR 0xB4, CHR 0xEF, CHR 0xBC, CHR 0xA3, CHR 0xE3, CHR 0x82, CHR 0xAB, CHR 0xE3, CHR 0x83, CHR 0xBC, CHR 0xE3, CHR 0x83, CHR 0x89, CHR 0xE7, CHR 0x95, CHR 0xAA, CHR 0xE5, CHR 0x8F, CHR 0xB7] \<comment> \<open>U+FF25 U+FF34 U+FF23 U+30AB U+30FC U+30C9 U+756A U+53F7\<close>,
     [CHR 0x45, CHR 0x54, CHR 0x43, CHR 0xE3, CHR 0x82, CHR 0xAB, CHR 0xE3, CHR 0x83, CHR 0xBC, CHR 0xE3, CHR 0x83, CHR 0x89, CHR 0xE7, CHR 0x95, CHR 0xAA, CHR 0xE5, CHR 0x8F, CHR 0xB7] \<comment> \<open>E T C U+30AB U+30FC U+30C9 U+756A U+53F7\<close>,
     [CHR 0xE3, CHR 0x82, CHR 0xAB, CHR 0xE3, CHR 0x83, CHR 0xBC, CHR 0xE3, CHR 0x83, CHR 0x89, CHR 0xE7, CHR 0x95, CHR 0xAA, CHR 0xE5, CHR 0x8F, CHR 0xB7] \<comment> \<open>U+30AB U+30FC U+30C9 U+756A U+53F7\<close>,
     [CHR 0xE3, CHR 0x82, CHR 0xAB, CHR 0xE3, CHR 0x83, CHR 0xBC, CHR 0xE3, CHR 0x83, CHR 0x89] \<comment> \<open>U+30AB U+30FC U+30C9\<close>
    ]"

definition Notes_headers :: "string list" where \<comment> \<open>source line 391\<close>
  "Notes_headers =
    [[CHR 0xE5, CHR 0x82, CHR 0x99, CHR 0xE8, CHR 0x80, CHR 0x83] \<comment> \<open>U+5099 U+8003\<close>,
     [CHR 0xE3, CHR 0x83, CHR 0xA1, CHR 0xE3, CHR 0x83, CHR 0xA2] \<comment> \<open>U+30E1 U+30E2\<close>,
     [CHR 0xE6, CHR 0xB3, CHR 0xA8, CHR 0xE8, CHR 0xA8, CHR 0x98] \<comment> \<open>U+6CE8 U+8A18\<close>
    ]"

subsection \<open>Header-based mapping\<close>

text \<open>
  The header map \<open>map[string]int\<close> is an association list with one entry for each key;
  \<open>headerMap[col] = idx\<close> is \<^const>\<open>AList.update\<close>, a lookup is \<^const>\<open>map_of\<close>, and
  \<open>len(headerMap) > 0\<close> is \<open>headerMap \<noteq> []\<close>.
\<close>

type_synonym header_map = "(string \<times> nat) list"

text \<open>The header test of \<open>Parse\<close> (source lines 87 to 94): the first cell that contains a pattern ends the loop.\<close>

fun isHeader :: "string list \<Rightarrow> bool" where
  "isHeader [] = False"
| "isHeader (col # cols) =
     (if Contains col (headerKeywords ! 0) \<or> Contains col (headerKeywords ! 1) \<or>
         Contains col (headerKeywords ! 2) \<or> Contains col (headerKeywords ! 3) \<or>
         Contains col (headerKeywords ! 4)
      then True else isHeader cols)"

text \<open>The loop that fills the header map (source lines 98 to 100), from index \<open>idx\<close> on.\<close>

fun buildHeaderMap :: "nat \<Rightarrow> string list \<Rightarrow> header_map \<Rightarrow> header_map" where
  "buildHeaderMap idx [] headerMap = headerMap"
| "buildHeaderMap idx (col # cols) headerMap =
     buildHeaderMap (Suc idx) cols (AList.update col idx headerMap)"

text \<open>\<open>getFieldByHeader\<close> (source lines 397 to 406).\<close>

fun getFieldByHeader :: "string list \<Rightarrow> header_map \<Rightarrow> string list \<Rightarrow> string" where
  "getFieldByHeader record headerMap [] = []"
| "getFieldByHeader record headerMap (headerName # headerNames) =
     (case map_of headerMap headerName of
        Some idx \<Rightarrow>
          if idx < length record then record ! idx
          else getFieldByHeader record headerMap headerNames
      | None \<Rightarrow> getFieldByHeader record headerMap headerNames)"

text \<open>\<open>parseWithHeaders\<close> (source lines 329 to 394).\<close>

definition parseWithHeaders :: "string list \<Rightarrow> header_map \<Rightarrow> ActualETCRecord" where
  "parseWithHeaders record headerMap =
     (let etcRecord = zeroRecord;
          etcRecord = etcRecord\<lparr>EntryDate := getFieldByHeader record headerMap EntryDate_headers\<rparr>;
          etcRecord = etcRecord\<lparr>EntryTime := getFieldByHeader record headerMap EntryTime_headers\<rparr>;
          etcRecord = etcRecord\<lparr>ExitDate := getFieldByHeader record headerMap ExitDate_headers\<rparr>;
          etcRecord = etcRecord\<lparr>ExitTime := getFieldByHeader record headerMap ExitTime_headers\<rparr>;
          etcRecord = etcRecord\<lparr>EntryIC := getFieldByHeader record headerMap EntryIC_headers\<rparr>;
          etcRecord = etcRecord\<lparr>ExitIC := getFieldByHeader record headerMap ExitIC_headers\<rparr>;
          etcRecord = etcRecord\<lparr>RouteInfo := getFieldByHeader record headerMap RouteInfo_headers\<rparr>;
          normalAmountStr = getFieldByHeader record headerMap NormalAmount_headers;
          etcRecord = (if normalAmountStr \<noteq> []
                       then (case parseAmount normalAmountStr of
                               Inr amount \<Rightarrow> etcRecord\<lparr>NormalAmount := amount\<rparr>
                             | Inl err \<Rightarrow> etcRecord)
                       else etcRecord);
          discountStr = getFieldByHeader record headerMap DiscountApplied_headers;
          etcRecord = (if discountStr \<noteq> []
                       then (case parseAmount discountStr of
                               Inr amount \<Rightarrow> etcRecord\<lparr>DiscountApplied := amount\<rparr>
                             | Inl err \<Rightarrow> etcRecord)
                       else etcRecord);
          etcAmountStr = getFieldByHeader record headerMap ETCAmount_headers;
          etcRecord = (if etcAmountStr \<noteq> []
                       then (case parseAmount etcAmountStr of
                               Inr amount \<Rightarrow> etcRecord\<lparr>ETCAmount := amount\<rparr>
                             | Inl err \<Rightarrow> etcRecord)
                       else etcRecord);
          postPaymentStr = getFieldByHeader record headerMap PostPayment_headers;
          etcRecord = (if postPaymentStr \<noteq> []
                       then (case parseAmount postPaymentStr of
                               Inr amount \<Rightarrow>
                                 if amount \<noteq> 0 then etcRecord\<lparr>ETCAmount := amount\<rparr>
                                 else etcRecord
                             | Inl err \<Rightarrow> etcRecord)
                       else etcRecord);
          vehicleClassStr = getFieldByHeader record headerMap VehicleClass_headers;
          etcRecord = (if vehicleClassStr \<noteq> []
                       then (case Atoi vehicleClassStr of
                               Inr class \<Rightarrow> etcRecord\<lparr>VehicleClass := class\<rparr>
                             | Inl err \<Rightarrow> etcRecord)
                       else etcRecord);
          etcRecord = etcRecord\<lparr>VehicleNumber := getFieldByHeader record headerMap VehicleNumber_headers\<rparr>;
          etcRecord = etcRecord\<lparr>CardNumber := getFieldByHeader record headerMap CardNumber_headers\<rparr>;
          etcRecord = etcRecord\<lparr>Notes := getFieldByHeader record headerMap Notes_headers\<rparr>
      in etcRecord)"

subsection \<open>Positional mapping\<close>

text \<open>
  One amount cell of the positional mapping (source lines 139 to 147, and the same for the
  cells 8, 9 and 10): a cell that is absent or empty leaves the field at its zero value,
  one that does not parse sets it to 0.
\<close>

definition positionalAmount :: "string list \<Rightarrow> nat \<Rightarrow> go_int" where
  "positionalAmount record index =
     (if getFieldSafe record index \<noteq> []
      then (case parseAmount (getFieldSafe record index) of
              Inl err \<Rightarrow> 0
            | Inr amount \<Rightarrow> amount)
      else 0)"

text \<open>
  The positional mapping of a row of at least 13 cells (source lines 127 to 189, the
  body of the \<open>else\<close> branch of \<open>Parse\<close> after its length test). The cells 0 to 5 are
  read by index, the others through \<open>getFieldSafe\<close>.
\<close>

definition parsePositional :: "string list \<Rightarrow> ActualETCRecord" where
  "parsePositional record =
     (let etcRecord = zeroRecord\<lparr>EntryDate := record ! 0, EntryTime := record ! 1,
                                 ExitDate := record ! 2, ExitTime := record ! 3,
                                 EntryIC := record ! 4, ExitIC := record ! 5,
                                 RouteInfo := getFieldSafe record 6, Notes := []\<rparr>;
          etcRecord = etcRecord\<lparr>ETCAmount := positionalAmount record 7\<rparr>;
          etcRecord = etcRecord\<lparr>NormalAmount := positionalAmount record 8\<rparr>;
          etcRecord = etcRecord\<lparr>DiscountApplied := positionalAmount record 9\<rparr>;
          etcRecord = etcRecord\<lparr>Mileage := positionalAmount record 10\<rparr>;
          etcRecord = etcRecord\<lparr>VehicleClass := ParseVehicleClass record 11\<rparr>;
          etcRecord = etcRecord\<lparr>VehicleNumber := getFieldSafe record 12\<rparr>;
          etcRecord = etcRecord\<lparr>CardNumber := getFieldSafe record 13\<rparr>;
          etcRecord = etcRecord\<lparr>Notes := getFieldSafe record 14\<rparr>
      in etcRecord)"

subsection \<open>The batch parser\<close>

text \<open>\<open>ValidateRecordsAvailable\<close> (source lines 422 to 427).\<close>

definition ValidateRecordsAvailable :: "string list list \<Rightarrow> nat \<Rightarrow> error option" where
  "ValidateRecordsAvailable records startIndex =
     (if length records \<le> startIndex then Some NoDataRecords else None)"

text \<open>
  The row loop of \<open>Parse\<close> (source lines 110 to 199) over the rows from \<open>startIndex\<close> on,
  with the records appended so far. The result of \<open>ValidateRecord\<close> is looked at and
  both outcomes go on to the \<open>append\<close>.
\<close>

fun parseRows :: "header_map \<Rightarrow> string list list \<Rightarrow> ActualETCRecord list \<Rightarrow> ActualETCRecord list" where
  "parseRows headerMap [] etcRecords = etcRecords"
| "parseRows headerMap (record # rest) etcRecords =
     (if headerMap \<noteq> []
      then (let etcRecord = parseWithHeaders record headerMap
            in (case ValidateRecord etcRecord of
                  Some err \<Rightarrow> parseRows headerMap rest (etcRecords @ [etcRecord])
                | None \<Rightarrow> parseRows headerMap rest (etcRecords @ [etcRecord])))
      else if length record < 13 then parseRows headerMap rest etcRecords
      else (let etcRecord = parsePositional record
            in (case ValidateRecord etcRecord of
                  Some err \<Rightarrow> parseRows headerMap rest (etcRecords @ [etcRecord])
                | None \<Rightarrow> parseRows headerMap rest (etcRecords @ [etcRecord]))))"

text \<open>
  What \<open>Parse\<close> is given: no reader at all, or a reader whose \<open>csv.Reader.ReadAll\<close>
  fails with an error (its text) or yields the rows of the input, each a list of cells.
\<close>

datatype reader = NilReader | CSVReader "string + string list list"

text \<open>\<open>Parse\<close> (source lines 58 to 202).\<close>

definition Parse :: "reader \<Rightarrow> error + ActualETCRecord list" where
  "Parse rd =
     (case rd of
        NilReader \<Rightarrow> Inl ReaderNil
      | CSVReader (Inl err) \<Rightarrow> Inl (ReadCSVFailed err)
      | CSVReader (Inr records) \<Rightarrow>
          if length records = 0 then Inl CSVEmpty
          else (let firstRow = records ! 0;
                    headerMap = (if isHeader firstRow then buildHeaderMap 0 firstRow [] else []);
                    startIndex = (if isHeader firstRow then 1 else 0)
                in (case ValidateRecordsAvailable records startIndex of
                      Some err \<Rightarrow> Inl err
                    | None \<Rightarrow> Inr (parseRows headerMap (drop startIndex records) []))))"

section \<open>Package handler: the service\<close>

text \<open>
  \<open>DataProcessorService\<close>; the source lines named in this section are those of
  \<open>src/src/pkg/handler/service.go\<close>.
  The service reaches its parser and its database through the interfaces \<open>Parser\<close> and
  \<open>DBClient\<close>. Their methods are parameters here, an error being the text that
  \<open>Error()\<close> and the verb \<open>%v\<close> give for it: \<open>convert\<close> is
  \<open>s.parser.ConvertToSimpleRecord\<close>, \<open>validateRecord\<close> is \<open>s.parser.ValidateRecord\<close>, and a
  database client is its method \<open>SaveETCData\<close>, which takes the state of the database
  and returns the new one with its error. \<open>None\<close> is the nil client, or the nil error.
\<close>

record ProcessingStats =
  TotalRecords :: int32
  SavedRecords :: int32
  SkippedRecords :: int32
  ErrorRecords :: int32

text \<open>The map \<open>dataToSave\<close> of \<open>processRecords\<close> (source lines 244 to 253), a field for each key.\<close>

record SaveData =
  account_id :: string
  date :: time
  entry_ic :: string
  exit_ic :: string
  route :: string
  vehicle_type :: string
  amount :: go_int
  card_number :: string

definition dataToSave :: "string \<Rightarrow> ETCRecord \<Rightarrow> SaveData" where
  "dataToSave accountID simpleRecord =
     \<lparr>account_id = accountID,
      date = simple_Date simpleRecord,
      entry_ic = simple_EntryIC simpleRecord,
      exit_ic = simple_ExitIC simpleRecord,
      route = simple_Route simpleRecord,
      vehicle_type = simple_VehicleType simpleRecord,
      amount = simple_Amount simpleRecord,
      card_number = simple_CardNumber simpleRecord\<rparr>"

text \<open>
  The calls that \<open>processRecords\<close> makes to its collaborators, each with the index of the
  record it is made for; the model keeps them in the order in which they are made.
\<close>

datatype call = ConvertCall (call_index: nat) | SaveCall (call_index: nat)

record 's process_state =
  stats :: ProcessingStats
  errors :: "string list"
  processedKeys :: "string \<Rightarrow> bool"
  db :: 's
  calls :: "call list"

text \<open>The key of \<open>processRecords\<close> (source lines 224 to 227), format \<open>"%s_%s_%s_%s_%d_%s"\<close>.\<close>

definition processKey :: "ActualETCRecord \<Rightarrow> string" where
  "processKey record =
     EntryDate record @ ''_'' @ EntryTime record @ ''_'' @ ExitDate record @ ''_'' @
     ExitTime record @ ''_'' @ fmt_d (sint (ETCAmount record)) @ ''_'' @ CardNumber record"

text \<open>
  One pass through the body of the loop of \<open>processRecords\<close> after its cancellation
  test (source lines 223 to 265), for the record at index \<open>i\<close>: the state at the
  \<open>continue\<close> that ends the pass, or at the end of the body.
\<close>

definition processRecord ::
  "(ActualETCRecord \<Rightarrow> string + ETCRecord) \<Rightarrow>
   ('s \<Rightarrow> SaveData \<Rightarrow> string option \<times> 's) option \<Rightarrow> string \<Rightarrow> bool \<Rightarrow>
   nat \<Rightarrow> ActualETCRecord \<Rightarrow> 's process_state \<Rightarrow> 's process_state" where
  "processRecord convert dbClient accountID skipDuplicates i record st =
     (let key = processKey record
      in if skipDuplicates \<and> processedKeys st key
         then st\<lparr>stats := (stats st)\<lparr>SkippedRecords := SkippedRecords (stats st) + 1\<rparr>\<rparr>
         else (case convert record of
                 Inl err \<Rightarrow>
                   st\<lparr>calls := calls st @ [ConvertCall i],
                      errors := errors st @
                        [''Record '' @ fmt_d (int (i + 1)) @ '': conversion failed: '' @ err],
                      stats := (stats st)\<lparr>ErrorRecords := ErrorRecords (stats st) + 1\<rparr>\<rparr>
               | Inr simpleRecord \<Rightarrow>
                   (let data = dataToSave accountID simpleRecord
                    in (case dbClient of
                          None \<Rightarrow>
                            st\<lparr>calls := calls st @ [ConvertCall i],
                               processedKeys := (processedKeys st)(key := True),
                               stats := (stats st)\<lparr>SavedRecords := SavedRecords (stats st) + 1\<rparr>\<rparr>
                        | Some SaveETCData \<Rightarrow>
                            (case SaveETCData (db st) data of
                               (Some err, db') \<Rightarrow>
                                 st\<lparr>db := db',
                                    calls := calls st @ [ConvertCall i, SaveCall i],
                                    errors := errors st @
                                      [''Record '' @ fmt_d (int (i + 1)) @ '': save failed: '' @ err],
                                    stats := (stats st)\<lparr>ErrorRecords := ErrorRecords (stats st) + 1\<rparr>\<rparr>
                             | (None, db') \<Rightarrow>
                                 st\<lparr>db := db',
                                    calls := calls st @ [ConvertCall i, SaveCall i],
                                    processedKeys := (processedKeys st)(key := True),
                                    stats := (stats st)\<lparr>SavedRecords := SavedRecords (stats st) + 1\<rparr>\<rparr>)))))"

text \<open>
  The loop of \<open>processRecords\<close> (source lines 215 to 266) at index \<open>i\<close>, over the records
  from there on; \<open>n\<close> is \<open>len(records)\<close>, and \<open>ctx i\<close> tells whether \<open>ctx.Err()\<close> is
  non-nil when the loop tests it for record \<open>i\<close>. The test comes first, and a context
  that is cancelled ends the loop.
\<close>

fun processLoop ::
  "(nat \<Rightarrow> bool) \<Rightarrow> (ActualETCRecord \<Rightarrow> string + ETCRecord) \<Rightarrow>
   ('s \<Rightarrow> SaveData \<Rightarrow> string option \<times> 's) option \<Rightarrow> string \<Rightarrow> bool \<Rightarrow>
   nat \<Rightarrow> nat \<Rightarrow> ActualETCRecord list \<Rightarrow> 's process_state \<Rightarrow> 's process_state" where
  "processLoop ctx convert dbClient accountID skipDuplicates n i [] st = st"
| "processLoop ctx convert dbClient accountID skipDuplicates n i (record # rest) st =
     (if ctx i
      then st\<lparr>errors := errors st @ [''Processing cancelled at record '' @ fmt_d (int i)],
              stats := (stats st)\<lparr>ErrorRecords := word_of_nat (n - i)\<rparr>\<rparr>
      else processLoop ctx convert dbClient accountID skipDuplicates n (Suc i) rest
             (processRecord convert dbClient accountID skipDuplicates i record st))"

text \<open>
  \<open>processRecords\<close> (source lines 204 to 269): the state at the end of the loop, whose
  \<open>stats\<close> and \<open>errors\<close> are the two results of the Go function, from the database
  state \<open>db0\<close>.
\<close>

definition processRecords ::
  "(nat \<Rightarrow> bool) \<Rightarrow> (ActualETCRecord \<Rightarrow> string + ETCRecord) \<Rightarrow>
   ('s \<Rightarrow> SaveData \<Rightarrow> string option \<times> 's) option \<Rightarrow> 's \<Rightarrow>
   ActualETCRecord list \<Rightarrow> string \<Rightarrow> bool \<Rightarrow> 's process_state" where
  "processRecords ctx convert dbClient db0 records accountID skipDuplicates =
     processLoop ctx convert dbClient accountID skipDuplicates (length records) 0 records
       \<lparr>stats = \<lparr>TotalRecords = word_of_nat (length records), SavedRecords = 0,
                 SkippedRecords = 0, ErrorRecords = 0\<rparr>,
        errors = [],
        processedKeys = (\<lambda>key. False),
        db = db0,
        calls = []\<rparr>"

subsection \<open>Validation without saving\<close>

record ValidationError =
  LineNumber :: int32
  Field :: string
  Message :: string
  RecordData :: string

text \<open>
  \<open>ValidateCSVDataResponse\<close>; its field \<open>TotalRecords\<close> is \<open>ResponseTotalRecords\<close> here,
  the name being a field of \<open>ProcessingStats\<close> already.
\<close>

record ValidateCSVDataResponse =
  IsValid :: bool
  Errors :: "ValidationError list"
  DuplicateCount :: int32
  ResponseTotalRecords :: int32

text \<open>The key of \<open>ValidateCSVData\<close> (source lines 159 to 162), format \<open>"%s_%s_%s_%s_%d"\<close>.\<close>

definition validateKey :: "ActualETCRecord \<Rightarrow> string" where
  "validateKey record =
     EntryDate record @ ''_'' @ EntryTime record @ ''_'' @ ExitDate record @ ''_'' @
     ExitTime record @ ''_'' @ fmt_d (sint (ETCAmount record))"

text \<open>The verb \<open>%v\<close> on a record: its fields in order, a space between two, in braces.\<close>

definition fmt_v :: "ActualETCRecord \<Rightarrow> string" where
  "fmt_v r =
     ''{'' @ EntryDate r @ '' '' @ EntryTime r @ '' '' @ ExitDate r @ '' '' @ ExitTime r @ '' '' @
     EntryIC r @ '' '' @ ExitIC r @ '' '' @ RouteInfo r @ '' '' @
     fmt_d (sint (ETCAmount r)) @ '' '' @ fmt_d (sint (NormalAmount r)) @ '' '' @
     fmt_d (sint (DiscountApplied r)) @ '' '' @ fmt_d (sint (Mileage r)) @ '' '' @
     fmt_d (sint (VehicleClass r)) @ '' '' @ VehicleNumber r @ '' '' @ CardNumber r @ '' '' @
     Notes r @ ''}''"

text \<open>
  The loop of \<open>ValidateCSVData\<close> (source lines 157 to 180) at index \<open>i\<close>, with the map
  of the keys seen, the count of duplicates and the validation errors so far.
\<close>

fun validateLoop ::
  "(ActualETCRecord \<Rightarrow> string option) \<Rightarrow> nat \<Rightarrow> ActualETCRecord list \<Rightarrow>
   (string \<rightharpoonup> go_int) \<Rightarrow> int32 \<Rightarrow> ValidationError list \<Rightarrow> int32 \<times> ValidationError list" where
  "validateLoop validateRecord i [] duplicateMap duplicateCount validationErrors =
     (duplicateCount, validationErrors)"
| "validateLoop validateRecord i (record # rest) duplicateMap duplicateCount validationErrors =
     (let key = validateKey record;
          duplicateCount' = (case duplicateMap key of
                               Some c \<Rightarrow> duplicateCount + 1
                             | None \<Rightarrow> duplicateCount);
          duplicateMap' = (case duplicateMap key of
                             Some c \<Rightarrow> duplicateMap(key \<mapsto> c + 1)
                           | None \<Rightarrow> duplicateMap(key \<mapsto> 1));
          validationErrors' = (case validateRecord record of
                                 Some err \<Rightarrow>
                                   validationErrors @
                                     [\<lparr>LineNumber = word_of_nat (i + 2), Field = [],
                                       Message = err, RecordData = fmt_v record\<rparr>]
                               | None \<Rightarrow> validationErrors)
      in validateLoop validateRecord (Suc i) rest duplicateMap' duplicateCount' validationErrors')"

text \<open>
  \<open>ValidateCSVData\<close> (source lines 126 to 188). \<open>requestError\<close> is the result of the
  request check \<open>ValidateValidateCSVDataRequest\<close>, \<open>parsed\<close> that of \<open>s.parser.Parse\<close> on
  the request's CSV data. \<open>Inl\<close> is the error that the method returns with a nil response.
\<close>

definition ValidateCSVData ::
  "string option \<Rightarrow> (string + ActualETCRecord list) \<Rightarrow> (ActualETCRecord \<Rightarrow> string option) \<Rightarrow>
   string + ValidateCSVDataResponse" where
  "ValidateCSVData requestError parsed validateRecord =
     (case requestError of
        Some err \<Rightarrow> Inl err
      | None \<Rightarrow>
          (case parsed of
             Inl err \<Rightarrow>
               Inr \<lparr>IsValid = False,
                    Errors = [\<lparr>LineNumber = 0, Field = ''csv'', Message = err, RecordData = []\<rparr>],
                    DuplicateCount = 0,
                    ResponseTotalRecords = 0\<rparr>
           | Inr records \<Rightarrow>
               (case validateLoop validateRecord 0 records Map.empty 0 [] of
                  (duplicateCount, validationErrors) \<Rightarrow>
                    Inr \<lparr>IsValid = (length validationErrors = 0),
                         Errors = validationErrors,
                         DuplicateCount = duplicateCount,
                         ResponseTotalRecords = word_of_nat (length records)\<rparr>)))"

section \<open>Properties\<close>

subsection \<open>The standard library's dates\<close>

text \<open>A word built from an integer inside its range has that integer as its value.\<close>

lemma sint_wi:
  "- (2 ^ 63) \<le> x \<Longrightarrow> x < 2 ^ 63 \<Longrightarrow> sint (word_of_int x :: go_int) = x"
  by (simp add: sint_sbintrunc' signed_take_bit_int_eq_self)

lemma uint_wi:
  "0 \<le> x \<Longrightarrow> x < 2 ^ 64 \<Longrightarrow> uint (word_of_int x :: go_int) = x"
  by (simp add: uint_word_of_int take_bit_int_eq_self)

text \<open>On operands that are not negative the truncated quotient is the quotient.\<close>

lemma quo_nonneg:
  assumes "0 \<le> sint a" "0 < sint b"
  shows "quo a b = word_of_int (sint a div sint b)"
  using assms by (cases "sint a = 0") (simp_all add: quo_def)

text \<open>\<open>norm\<close> leaves a zero alone, and carries a month index into the year by \<open>div\<close> and \<open>mod\<close>.\<close>

lemma norm_zero: "0 < sint base \<Longrightarrow> norm hi 0 base = (hi, 0)"
  by (simp add: norm_def)



lemma sint_12: "sint (12 :: go_int) = 12"
  by simp

lemma norm_month:
  assumes H: "- (2 ^ 62) \<le> sint hi" "sint hi < 2 ^ 62"
    and L: "- (2 ^ 62) \<le> sint lo" "sint lo < 2 ^ 62"
  shows "norm hi lo 12 = (word_of_int (sint hi + sint lo div 12), word_of_int (sint lo mod 12))"
proof -
  define h where "h = sint hi"
  define l where "l = sint lo"
  have hi: "hi = word_of_int h" and lo: "lo = word_of_int l"
    by (simp_all add: h_def l_def)
  have lb: "- (2 ^ 62) \<le> l" "l < 2 ^ 62"
    using L by (simp_all add: l_def)
  have sl: "sint lo = l"
    by (simp add: l_def)
  show ?thesis
  proof (cases "l < 0")
    case True
    have a: "- lo - 1 = word_of_int (- l - 1)"
      by (simp add: lo)
    have sa: "sint (- lo - 1) = - l - 1"
      unfolding a using lb by (intro sint_wi) simp_all
    have q: "quo (- lo - 1) 12 = word_of_int ((- l - 1) div 12)"
      using quo_nonneg [of "- lo - 1" 12] True by (simp add: sa)
    have n: "(- l - 1) div 12 + 1 = - (l div 12)"
      using True by presburger
    have lo1: "lo + (quo (- lo - 1) 12 + 1) * 12 = word_of_int (l mod 12)"
    proof -
      have "lo + (quo (- lo - 1) 12 + 1) * 12 = word_of_int (l + ((- l - 1) div 12 + 1) * 12)"
        unfolding q by (simp add: lo)
      also have "l + ((- l - 1) div 12 + 1) * 12 = l mod 12"
        unfolding n by presburger
      finally show ?thesis .
    qed
    have hi1: "hi - (quo (- lo - 1) 12 + 1) = word_of_int (h + l div 12)"
    proof -
      have "hi - (quo (- lo - 1) 12 + 1) = word_of_int (h - ((- l - 1) div 12 + 1))"
        unfolding q by (simp add: hi)
      also have "h - ((- l - 1) div 12 + 1) = h + l div 12"
        unfolding n by simp
      finally show ?thesis .
    qed
    have s1: "sint (word_of_int (l mod 12) :: go_int) = l mod 12"
    proof (rule sint_wi)
      have m: "0 \<le> l mod 12" "l mod 12 < 12"
        by simp_all
      from m(1) show "- (2 ^ 63) \<le> l mod 12"
        by simp
      from m(2) show "l mod 12 < 2 ^ 63"
        by simp
    qed
    have "norm hi lo 12 =
        (if sint (12 :: go_int) \<le> l mod 12
         then (word_of_int (h + l div 12) + quo (word_of_int (l mod 12)) 12,
               word_of_int (l mod 12) - quo (word_of_int (l mod 12)) 12 * 12)
         else (word_of_int (h + l div 12), word_of_int (l mod 12)))"
      unfolding norm_def Let_def using True
      by (simp only: sl if_True lo1 hi1 prod.case s1)
    moreover have "\<not> 12 \<le> l mod 12"
      using pos_mod_bound [of 12 l] by linarith
    ultimately have "norm hi lo 12 = (word_of_int (h + l div 12), word_of_int (l mod 12))"
      by (simp only: sint_12 if_False)
    then show ?thesis
      by (simp add: h_def l_def)
  next
    case False
    show ?thesis
    proof (cases "12 \<le> l")
      case True
      have q: "quo lo 12 = word_of_int (l div 12)"
        using quo_nonneg [of lo 12] True by (simp add: sl)
      have lo1: "lo - quo lo 12 * 12 = word_of_int (l mod 12)"
      proof -
        have "lo - quo lo 12 * 12 = word_of_int (l - l div 12 * 12)"
          unfolding q by (simp add: lo)
        also have "l - l div 12 * 12 = l mod 12"
          by (simp add: minus_div_mult_eq_mod)
        finally show ?thesis .
      qed
      have hi1: "hi + quo lo 12 = word_of_int (h + l div 12)"
        unfolding q by (simp add: hi)
      have "norm hi lo 12 = (word_of_int (h + l div 12), word_of_int (l mod 12))"
        unfolding norm_def Let_def using True False
        by (simp only: sl if_False if_True lo1 hi1 prod.case sint_12)
      then show ?thesis
        by (simp add: h_def l_def)
    next
      case small: False
      then have dm: "l div 12 = 0" "l mod 12 = l"
        using False by simp_all
      have "norm hi lo 12 = (hi, lo)"
        unfolding norm_def Let_def using small False
        by (simp only: sl if_False prod.case sint_12)
      also have "(hi, lo) = (word_of_int (h + l div 12), word_of_int (l mod 12))"
        unfolding dm by (simp add: hi lo)
      finally show ?thesis
        by (simp add: h_def l_def)
    qed
  qed
qed



text \<open>The days counted in cycles of 400, 100, 4 and 1 years are the days of the years with one leap day every fourth year, none every hundredth and one every four-hundredth.\<close>

lemma cycles_int:
  fixes y :: int
  assumes "0 \<le> y"
  shows "146097 * (y div 400) + 36524 * (y mod 400 div 100) + 1461 * (y mod 400 mod 100 div 4) +
      365 * (y mod 400 mod 100 mod 4) =
    365 * y + y div 4 - y div 100 + y div 400"
proof -
  define q where "q = y div 400"
  define r where "r = y mod 400"
  define c where "c = r div 100"
  define s where "s = r mod 100"
  define f where "f = s div 4"
  define g where "g = s mod 4"
  have y: "y = 400 * q + r"
    by (simp add: q_def r_def)
  have r: "r = 100 * c + s"
    by (simp add: c_def s_def)
  have s: "s = 4 * f + g"
    by (simp add: f_def g_def)
  have rb: "0 \<le> r" "r < 400"
    by (simp_all add: r_def)
  have sb: "0 \<le> s" "s < 100"
    by (simp_all add: s_def)
  have gb: "0 \<le> g" "g < 4"
    by (simp_all add: g_def)
  have cb: "0 \<le> c" "c < 4"
    using rb by (simp_all add: c_def div_less_iff_less_mult pos_imp_zdiv_nonneg_iff)
  have d400: "y div 400 = q"
    by (simp add: q_def)
  have d4: "y div 4 = 100 * q + 25 * c + f"
  proof -
    have "y = 4 * (100 * q + 25 * c + f) + g"
      using y r s by simp
    then show ?thesis
      using gb by (simp add: div_pos_pos_trivial)
  qed
  have d100: "y div 100 = 4 * q + c"
  proof -
    have "y = 100 * (4 * q + c) + s"
      using y r by simp
    then show ?thesis
      using sb by (simp add: div_pos_pos_trivial)
  qed
  have "146097 * q + 36524 * c + 1461 * f + 365 * g = 365 * y + y div 4 - y div 100 + y div 400"
    unfolding d400 d4 d100 using y r s by simp
  then show ?thesis
    by (simp add: q_def r_def c_def s_def f_def g_def)
qed



text \<open>\<open>daysSinceEpoch\<close> computes that count as long as the year is not before the epoch.\<close>

lemma word_div_uint: "(a :: go_int) div b = word_of_int (uint a div uint b)"
  by (metis uint_div word_of_int_uint)

lemma word_minus_mult_div: "(a :: go_int) - b * (a div b) = a mod b"
  by (rule minus_mult_div_eq_mod)

lemma uint_div_numeral:
  assumes "uint (a :: go_int) = x" "0 \<le> x"
  shows "uint (a div 400) = x div 400" "uint (a mod 400) = x mod 400"
    "uint (a div 100) = x div 100" "uint (a mod 100) = x mod 100"
    "uint (a div 4) = x div 4" "uint (a mod 4) = x mod 4"
  using assms by (simp_all add: uint_div uint_mod)

lemma daysSinceEpoch_eq:
  assumes "- 292277022399 \<le> sint year" "sint year < 2 ^ 62"
  shows "daysSinceEpoch year =
    word_of_int (365 * (sint year + 292277022399) + (sint year + 292277022399) div 4 -
      (sint year + 292277022399) div 100 + (sint year + 292277022399) div 400)"
proof -
  define y where "y = sint year + 292277022399"
  have yb: "0 \<le> y" "y < 2 ^ 64"
    using assms by (simp_all add: y_def)
  have "year + 292277022399 = word_of_int y"
    by (simp add: y_def)
  then have u0: "uint (year + 292277022399) = y"
    using yb by (simp add: uint_wi)
  let ?w = "year + 292277022399"
  have n1: "?w div 400 = word_of_int (y div 400)"
    by (simp add: word_div_uint u0)
  have y2: "?w - 400 * (?w div 400) = ?w mod 400"
    by (rule word_minus_mult_div)
  have u2: "uint (?w mod 400) = y mod 400"
    using u0 yb(1) by (rule uint_div_numeral)
  have n2: "?w mod 400 div 100 = word_of_int (y mod 400 div 100)"
    by (simp add: word_div_uint u2)
  have y3: "?w mod 400 - 100 * (?w mod 400 div 100) = ?w mod 400 mod 100"
    by (rule word_minus_mult_div)
  have u3: "uint (?w mod 400 mod 100) = y mod 400 mod 100"
    using u2 by (rule uint_div_numeral) simp
  have n3: "?w mod 400 mod 100 div 4 = word_of_int (y mod 400 mod 100 div 4)"
    by (simp add: word_div_uint u3)
  have y4: "?w mod 400 mod 100 - 4 * (?w mod 400 mod 100 div 4) = ?w mod 400 mod 100 mod 4"
    by (rule word_minus_mult_div)
  have u4: "uint (?w mod 400 mod 100 mod 4) = y mod 400 mod 100 mod 4"
    using u3 by (rule uint_div_numeral) simp
  have n4: "?w mod 400 mod 100 mod 4 = word_of_int (y mod 400 mod 100 mod 4)"
    by (metis u4 word_of_int_uint)
  have "daysSinceEpoch year =
      146097 * (?w div 400) + 36524 * (?w mod 400 div 100) + 1461 * (?w mod 400 mod 100 div 4) +
      365 * (?w mod 400 mod 100 mod 4)"
    unfolding daysSinceEpoch_def Let_def y2 y3 y4 ..
  also have "\<dots> = word_of_int (146097 * (y div 400) + 36524 * (y mod 400 div 100) +
      1461 * (y mod 400 mod 100 div 4) + 365 * (y mod 400 mod 100 mod 4))"
    unfolding n1 n2 n3 n4 by simp
  also have "\<dots> = word_of_int (365 * y + y div 4 - y div 100 + y div 400)"
    by (simp only: cycles_int [OF yb(1)])
  finally show ?thesis
    by (simp add: y_def)
qed



text \<open>The epoch lies 730692556 cycles of 400 years before the year 0, and the table of \<open>daysBefore\<close> with the leap day adds up the lengths of the months.\<close>

lemma days_shift:
  fixes z :: int
  shows "365 * (z + 292277022400) + (z + 292277022400) div 4 - (z + 292277022400) div 100 +
      (z + 292277022400) div 400 =
    365 * z + z div 4 - z div 100 + z div 400 + 106751990353932"
proof -
  have "(z + 292277022400) div 4 = z div 4 + 73069255600"
    using div_mult_self2 [of 4 z 73069255600] by simp
  moreover have "(z + 292277022400) div 100 = z div 100 + 2922770224"
    using div_mult_self2 [of 100 z 2922770224] by simp
  moreover have "(z + 292277022400) div 400 = z div 400 + 730692556"
    using div_mult_self2 [of 400 z 730692556] by simp
  ultimately show ?thesis
    by simp
qed

lemma days_before_table:
  assumes "k < 12"
  shows "int (daysBefore ! k) + (if leap \<and> 2 \<le> k then 1 else 0) = days_in_months leap k"
proof -
  from assms have "k = 0 \<or> k = 1 \<or> k = 2 \<or> k = 3 \<or> k = 4 \<or> k = 5 \<or> k = 6 \<or>
      k = 7 \<or> k = 8 \<or> k = 9 \<or> k = 10 \<or> k = 11"
    by arith
  then show ?thesis
    by (elim disjE) (simp_all add: daysBefore_def month_length_def numeral_eq_Suc)
qed



text \<open>\<open>time.Date\<close> at zero time of day in UTC, for years, months and days within a billion of zero: the calendar date at midnight.\<close>

lemma Date_calendar:
  assumes Y: "- 1000000000 \<le> sint year" "sint year \<le> 1000000000"
    and M: "- 1000000000 \<le> sint month" "sint month \<le> 1000000000"
    and D: "- 1000000000 \<le> sint day" "sint day \<le> 1000000000"
  shows "Date year month day 0 0 0 0 UTC =
    Time (word_of_int (calendar_midnight (sint year) (sint month) (sint day))) 0 UTC"
proof -
  define y where "y = sint year"
  define m where "m = sint month"
  define d where "d = sint day"
  define q where "q = (m - 1) div 12"
  define k where "k = (m - 1) mod 12"
  have yb: "- 1000000000 \<le> y" "y \<le> 1000000000"
    and mb: "- 1000000000 \<le> m" "m \<le> 1000000000"
    using Y M by (simp_all add: y_def m_def)
  have kb: "0 \<le> k" "k < 12"
    by (simp_all add: k_def)
  have qk: "12 * q + k = m - 1"
    by (simp add: q_def k_def)
  have qb: "- 1000000000 \<le> q" "q \<le> 1000000000"
    using qk kb mb by linarith+
  have m1: "month - 1 = word_of_int (m - 1)"
    by (simp add: m_def)
  have sm1: "sint (month - 1) = m - 1"
    unfolding m1 using mb by (intro sint_wi) simp_all
  define yw :: go_int where "yw = word_of_int (y + q)"
  define kw :: go_int where "kw = word_of_int k"
  have nm: "norm year (month - 1) 12 = (yw, kw)"
    using norm_month [of year "month - 1"] Y mb
    by (simp add: sm1 y_def q_def k_def yw_def kw_def)
  have sy: "sint yw = y + q"
    unfolding yw_def using yb qb by (intro sint_wi) simp_all
  have sk: "sint (kw + 1) = k + 1"
  proof -
    have "kw + 1 = word_of_int (k + 1)"
      by (simp add: kw_def)
    moreover have "sint (word_of_int (k + 1) :: go_int) = k + 1"
      using kb by (intro sint_wi) simp_all
    ultimately show ?thesis by simp
  qed
  have dse: "daysSinceEpoch yw = word_of_int (days_before_year (y + q) + 106751990353932)"
  proof -
    have e: "y + q + 292277022399 = (y + q - 1) + 292277022400"
      by simp
    have "daysSinceEpoch yw =
        word_of_int (365 * (sint yw + 292277022399) + (sint yw + 292277022399) div 4 -
          (sint yw + 292277022399) div 100 + (sint yw + 292277022399) div 400)"
      by (rule daysSinceEpoch_eq) (use sy yb qb in simp_all)
    also have "\<dots> = word_of_int (365 * (y + q - 1) + (y + q - 1) div 4 - (y + q - 1) div 100 +
        (y + q - 1) div 400 + 106751990353932)"
      unfolding sy e days_shift ..
    finally show ?thesis
      by (simp only: days_before_year_def)
  qed
  have lp: "isLeap yw = leap_year (y + q)"
    by (simp add: isLeap_def leap_year_def sy)
  have tbl: "(word_of_nat (daysBefore ! nat k) :: go_int) +
      (if leap_year (y + q) \<and> 2 \<le> k then 1 else 0) =
      word_of_int (days_in_months (leap_year (y + q)) (nat k))"
  proof -
    have "nat k < 12"
      using kb by simp
    then have "int (daysBefore ! nat k) + (if leap_year (y + q) \<and> 2 \<le> nat k then 1 else 0) =
        days_in_months (leap_year (y + q)) (nat k)"
      by (rule days_before_table)
    moreover have "2 \<le> nat k \<longleftrightarrow> 2 \<le> k"
      using kb by linarith
    ultimately have "days_in_months (leap_year (y + q)) (nat k) =
        int (daysBefore ! nat k) + (if leap_year (y + q) \<and> 2 \<le> k then 1 else 0)"
      by simp
    then show ?thesis
      by simp
  qed
  have nk: "nat (k + 1) - Suc 0 = nat k"
    using kb by simp
  have z: "norm (0 :: go_int) 0 1000000000 = (0, 0)" "norm (0 :: go_int) 0 60 = (0, 0)"
    "norm day 0 24 = (day, 0)"
    by (simp_all add: norm_zero)
  have "Date year month day 0 0 0 0 UTC =
      Time ((word_of_int (days_before_year (y + q) + 106751990353932) +
             (word_of_nat (daysBefore ! nat k) +
              (if leap_year (y + q) \<and> 2 \<le> k then 1 else 0)) +
             (day - 1)) * 86400 - 9223372028715321600) 0 UTC"
    unfolding Date_def Let_def nm prod.case z dse lp sk
    using nk by simp
  also have "day - 1 = word_of_int (d - 1)"
    by (simp add: d_def)
  finally have "Date year month day 0 0 0 0 UTC =
      Time (word_of_int ((days_before_year (y + q) + 106751990353932 +
              days_in_months (leap_year (y + q)) (nat k) + (d - 1)) * 86400 -
              9223372028715321600)) 0 UTC"
    unfolding tbl by simp
  also have "(days_before_year (y + q) + 106751990353932 +
              days_in_months (leap_year (y + q)) (nat k) + (d - 1)) * 86400 -
              9223372028715321600 = calendar_midnight y m d"
    by (simp add: calendar_midnight_def q_def k_def days_before_year_def)
  finally show ?thesis
    by (simp add: y_def m_def d_def)
qed

text \<open>Within that range the calendar date at midnight is a number of seconds that fits 64 bits.\<close>

lemma days_in_months_bounds:
  "0 \<le> days_in_months leap n \<and> days_in_months leap n \<le> 31 * int n"
  by (induction n) (auto simp add: month_length_def)

lemma calendar_midnight_bounds:
  assumes "- 1000000000 \<le> y" "y \<le> 1000000000"
    and "- 1000000000 \<le> m" "m \<le> 1000000000"
    and "- 1000000000 \<le> d" "d \<le> 1000000000"
  shows "- (2 ^ 63) \<le> calendar_midnight y m d \<and> calendar_midnight y m d < 2 ^ 63"
proof -
  define q where "q = (m - 1) div 12"
  define k where "k = (m - 1) mod 12"
  define z where "z = y + q - 1"
  have kb: "0 \<le> k" "k < 12"
    by (simp_all add: k_def)
  have qk: "12 * q + k = m - 1"
    by (simp add: q_def k_def)
  have qb: "- 1000000000 \<le> q" "q \<le> 1000000000"
    using qk kb assms(3,4) by linarith+
  have zb: "- 2000000001 \<le> z" "z \<le> 2000000000"
    using qb assms(1,2) by (simp_all add: z_def)
  have a: "4 * (z div 4) + z mod 4 = z" "0 \<le> z mod 4" "z mod 4 < 4"
    by simp_all
  have b: "100 * (z div 100) + z mod 100 = z" "0 \<le> z mod 100" "z mod 100 < 100"
    by simp_all
  have c: "400 * (z div 400) + z mod 400 = z" "0 \<le> z mod 400" "z mod 400 < 400"
    by simp_all
  have dby: "days_before_year (y + q) = 365 * z + z div 4 - z div 100 + z div 400"
    by (simp add: days_before_year_def z_def)
  have yb: "- 1000000000000 \<le> days_before_year (y + q)" "days_before_year (y + q) \<le> 1000000000000"
    unfolding dby using a b c zb by linarith+
  have "int (nat k) = k"
    using kb by simp
  then have "31 * int (nat k) \<le> 372"
    using kb by linarith
  then have mb: "0 \<le> days_in_months (leap_year (y + q)) (nat k)"
    "days_in_months (leap_year (y + q)) (nat k) \<le> 372"
    using days_in_months_bounds [of "leap_year (y + q)" "nat k"] by linarith+
  have e: "days_before_year 1970 = 719162"
    by (simp add: days_before_year_def)
  have cm: "calendar_midnight y m d =
      86400 * (days_before_year (y + q) - 719162 + days_in_months (leap_year (y + q)) (nat k) + (d - 1))"
    by (simp only: calendar_midnight_def q_def k_def e)
  show ?thesis
    unfolding cm using yb mb assms(5,6) by simp
qed

lemma Date_midnight:
  assumes "- 1000000000 \<le> sint year" "sint year \<le> 1000000000"
    and "- 1000000000 \<le> sint month" "sint month \<le> 1000000000"
    and "- 1000000000 \<le> sint day" "sint day \<le> 1000000000"
  shows "Location (Date year month day 0 0 0 0 UTC) = UTC \<and>
    Nanosecond (Date year month day 0 0 0 0 UTC) = 0 \<and>
    sint (Unix (Date year month day 0 0 0 0 UTC)) =
      calendar_midnight (sint year) (sint month) (sint day)"
proof -
  have "sint (word_of_int (calendar_midnight (sint year) (sint month) (sint day)) :: go_int) =
      calendar_midnight (sint year) (sint month) (sint day)"
    using calendar_midnight_bounds [OF assms] by (intro sint_wi) simp_all
  then show ?thesis
    by (simp add: Date_calendar [OF assms])
qed

subsection \<open>The date normalizer\<close>

text \<open>Adding the century to a year below 100 stays inside the 64-bit range.\<close>

lemma sint_bounds64: "- (2 ^ 63) \<le> sint (y :: go_int) \<and> sint y < 2 ^ 63"
  using sint_ge [of y] sint_lt [of y] by simp

lemma sint_add_2000:
  fixes y :: go_int
  assumes "sint y < 100"
  shows "sint (y + 2000) = sint y + 2000"
proof -
  have "sint (y + 2000) = signed_take_bit 63 (sint y + 2000)"
    by (simp add: sint_word_ariths)
  also have "\<dots> = sint y + 2000"
    using assms sint_bounds64 [of y] by (simp add: signed_take_bit_int_eq_self)
  finally show ?thesis .
qed

lemma sint_add_1900:
  fixes y :: go_int
  assumes "sint y < 100"
  shows "sint (y + 1900) = sint y + 1900"
proof -
  have "sint (y + 1900) = signed_take_bit 63 (sint y + 1900)"
    by (simp add: sint_word_ariths)
  also have "\<dots> = sint y + 1900"
    using assms sint_bounds64 [of y] by (simp add: signed_take_bit_int_eq_self)
  finally show ?thesis .
qed

text \<open>\<open>parseDate\<close> on a text of three pieces, and on any other.\<close>

lemma parseDate_three:
  assumes "Split s (CHR ''/'') = [a, b, c]"
  shows "parseDate s =
    (case Atoi a of Inl e \<Rightarrow> Inl e
     | Inr y \<Rightarrow> (case Atoi b of Inl e \<Rightarrow> Inl e
        | Inr m \<Rightarrow> (case Atoi c of Inl e \<Rightarrow> Inl e
           | Inr d \<Rightarrow> Inr (Date (if sint y < 100 then (if sint y < 50 then y + 2000 else y + 1900) else y) m d
               0 0 0 0 UTC))))"
  using assms by (simp add: parseDate_def Let_def split: sum.splits)

lemma parseDate_not_three:
  assumes "length (Split s (CHR ''/'')) \<noteq> 3"
  shows "parseDate s = Inl (InvalidDateFormat s)"
  using assms by (simp add: parseDate_def)

lemma length3: "length xs = 3 \<Longrightarrow> \<exists>a b c. xs = [a, b, c]"
  by (cases xs; simp; cases "tl xs"; simp; cases "tl (tl xs)"; auto)


text \<open>
  Claim C1, amended. \<open>parseDate s\<close> succeeds exactly when \<open>s\<close> splits at \<open>/\<close> into three
  pieces that \<open>Atoi\<close> accepts, whatever the month and the day are. It then returns
  \<open>time.Date(year, month, day, 0, 0, 0, 0, time.UTC)\<close> for the month and day as parsed and
  the year \<open>2000 + y\<close> for a parsed year \<open>y\<close> from 0 to 49, \<open>1900 + y\<close> for one from 50 to
  99, and \<open>y\<close> itself from 100 on. For a year, month and day within a billion of zero that
  is midnight UTC of the calendar date, the month carried into the year and the day
  counted on from the first of the month. (Far outside, the 64-bit arithmetic of the
  library wraps around: see the theorem after the next.)
\<close>

theorem parseDate_spec:
  "((\<exists>t. parseDate s = Inr t) \<longleftrightarrow>
      (\<exists>a b c. Split s (CHR ''/'') = [a, b, c] \<and>
         (\<exists>y. Atoi a = Inr y) \<and> (\<exists>m. Atoi b = Inr m) \<and> (\<exists>d. Atoi c = Inr d))) \<and>
   (\<forall>t. parseDate s = Inr t \<longrightarrow>
      (\<exists>a b c y m d year. Split s (CHR ''/'') = [a, b, c] \<and>
         Atoi a = Inr y \<and> Atoi b = Inr m \<and> Atoi c = Inr d \<and>
         (0 \<le> sint y \<and> sint y < 50 \<longrightarrow> sint year = 2000 + sint y) \<and>
         (50 \<le> sint y \<and> sint y < 100 \<longrightarrow> sint year = 1900 + sint y) \<and>
         (100 \<le> sint y \<longrightarrow> year = y) \<and>
         t = Date year m d 0 0 0 0 UTC \<and>
         (- 1000000000 \<le> sint year \<and> sint year \<le> 1000000000 \<and>
          - 1000000000 \<le> sint m \<and> sint m \<le> 1000000000 \<and>
          - 1000000000 \<le> sint d \<and> sint d \<le> 1000000000 \<longrightarrow>
            Location t = UTC \<and> Nanosecond t = 0 \<and>
            sint (Unix t) = calendar_midnight (sint year) (sint m) (sint d))))"
proof (cases "length (Split s (CHR ''/'')) = 3")
  case False
  then have "parseDate s = Inl (InvalidDateFormat s)"
    by (rule parseDate_not_three)
  moreover have "\<not> (\<exists>a b c. Split s (CHR ''/'') = [a, b, c])"
    using False by auto
  ultimately show ?thesis by simp
next
  case True
  then obtain a b c where abc: "Split s (CHR ''/'') = [a, b, c]"
    using length3 by blast
  note pd = parseDate_three [OF abc]
  show ?thesis
  proof (intro conjI allI impI)
    show "(\<exists>t. parseDate s = Inr t) \<longleftrightarrow>
      (\<exists>a b c. Split s (CHR ''/'') = [a, b, c] \<and>
         (\<exists>y. Atoi a = Inr y) \<and> (\<exists>m. Atoi b = Inr m) \<and> (\<exists>d. Atoi c = Inr d))"
      by (simp add: pd abc split: sum.splits)
  next
    fix t assume ok: "parseDate s = Inr t"
    define year where "year = (\<lambda>y :: go_int.
      if sint y < 100 then (if sint y < 50 then y + 2000 else y + 1900) else y)"
    from ok obtain y m d where
      at: "Atoi a = Inr y" "Atoi b = Inr m" "Atoi c = Inr d"
      and t: "t = Date (year y) m d 0 0 0 0 UTC"
      by (auto simp add: pd year_def split: sum.splits)
    have y1: "0 \<le> sint y \<and> sint y < 50 \<longrightarrow> sint (year y) = 2000 + sint y"
      by (simp add: year_def sint_add_2000)
    have y2: "50 \<le> sint y \<and> sint y < 100 \<longrightarrow> sint (year y) = 1900 + sint y"
      by (simp add: year_def sint_add_1900)
    have y3: "100 \<le> sint y \<longrightarrow> year y = y"
      by (simp add: year_def)
    have mid: "- 1000000000 \<le> sint (year y) \<and> sint (year y) \<le> 1000000000 \<and>
          - 1000000000 \<le> sint m \<and> sint m \<le> 1000000000 \<and>
          - 1000000000 \<le> sint d \<and> sint d \<le> 1000000000 \<longrightarrow>
            Location t = UTC \<and> Nanosecond t = 0 \<and>
            sint (Unix t) = calendar_midnight (sint (year y)) (sint m) (sint d)"
      unfolding t using Date_midnight [of "year y" m d] by blast
    from abc at y1 y2 y3 t mid
    show "\<exists>a b c y m d year. Split s (CHR ''/'') = [a, b, c] \<and>
         Atoi a = Inr y \<and> Atoi b = Inr m \<and> Atoi c = Inr d \<and>
         (0 \<le> sint y \<and> sint y < 50 \<longrightarrow> sint year = 2000 + sint y) \<and>
         (50 \<le> sint y \<and> sint y < 100 \<longrightarrow> sint year = 1900 + sint y) \<and>
         (100 \<le> sint y \<longrightarrow> year = y) \<and>
         t = Date year m d 0 0 0 0 UTC \<and>
         (- 1000000000 \<le> sint year \<and> sint year \<le> 1000000000 \<and>
          - 1000000000 \<le> sint m \<and> sint m \<le> 1000000000 \<and>
          - 1000000000 \<le> sint d \<and> sint d \<le> 1000000000 \<longrightarrow>
            Location t = UTC \<and> Nanosecond t = 0 \<and>
            sint (Unix t) = calendar_midnight (sint year) (sint m) (sint d))"
      by blast
  qed
qed

text \<open>
  The claim at \<open>"49/13/40"\<close>: the year 2049, and month 13 and day 40 give midnight UTC of
  the ninth of February 2050.
\<close>

theorem parseDate_spec_witness:
  "\<exists>t. parseDate ''49/13/40'' = Inr t \<and> Location t = UTC \<and> Nanosecond t = 0 \<and>
     sint (Unix t) = 2527977600 \<and>
     calendar_midnight 2049 13 40 = 2527977600 \<and> calendar_midnight 2050 2 9 = 2527977600"
proof -
  obtain t where ok: "parseDate ''49/13/40'' = Inr t"
    by (simp add: parseDate_def Atoi_def)
  from parseDate_spec [of "''49/13/40''", THEN conjunct2, rule_format, OF ok]
  obtain a b c y m d year where all:
    "Split ''49/13/40'' (CHR ''/'') = [a, b, c] \<and>
     Atoi a = Inr y \<and> Atoi b = Inr m \<and> Atoi c = Inr d \<and>
     (0 \<le> sint y \<and> sint y < 50 \<longrightarrow> sint year = 2000 + sint y) \<and>
     (50 \<le> sint y \<and> sint y < 100 \<longrightarrow> sint year = 1900 + sint y) \<and>
     (100 \<le> sint y \<longrightarrow> year = y) \<and>
     t = Date year m d 0 0 0 0 UTC \<and>
     (- 1000000000 \<le> sint year \<and> sint year \<le> 1000000000 \<and>
      - 1000000000 \<le> sint m \<and> sint m \<le> 1000000000 \<and>
      - 1000000000 \<le> sint d \<and> sint d \<le> 1000000000 \<longrightarrow>
        Location t = UTC \<and> Nanosecond t = 0 \<and>
        sint (Unix t) = calendar_midnight (sint year) (sint m) (sint d))"
    by (elim exE) (erule that)
  from all have sp: "Split ''49/13/40'' (CHR ''/'') = [a, b, c]"
    and at: "Atoi a = Inr y" "Atoi b = Inr m" "Atoi c = Inr d"
    and yr: "0 \<le> sint y \<and> sint y < 50 \<longrightarrow> sint year = 2000 + sint y"
    and mid: "- 1000000000 \<le> sint year \<and> sint year \<le> 1000000000 \<and>
          - 1000000000 \<le> sint m \<and> sint m \<le> 1000000000 \<and>
          - 1000000000 \<le> sint d \<and> sint d \<le> 1000000000 \<longrightarrow>
            Location t = UTC \<and> Nanosecond t = 0 \<and>
            sint (Unix t) = calendar_midnight (sint year) (sint m) (sint d)"
    by blast+
  from sp have abc: "a = ''49''" "b = ''13''" "c = ''40''"
    by simp_all
  have "Atoi ''49'' = Inr 49" "Atoi ''13'' = Inr 13" "Atoi ''40'' = Inr 40"
    by (simp_all add: Atoi_def)
  with at abc have v: "y = 49" "m = 13" "d = 40"
    by simp_all
  with yr have sy: "sint year = 2049"
    by simp
  have c1: "calendar_midnight 2049 13 40 = 2527977600"
    by (simp add: calendar_midnight_def days_before_year_def leap_year_def month_length_def)
  have c2: "calendar_midnight 2050 2 9 = 2527977600"
    by (simp add: calendar_midnight_def days_before_year_def leap_year_def month_length_def)
  from mid have "Location t = UTC \<and> Nanosecond t = 0 \<and> sint (Unix t) = 2527977600"
    by (simp add: sy v c1)
  with ok c1 c2 show ?thesis
    by blast
qed

lemmas Date_defs = Date_def norm_def quo_def daysSinceEpoch_def isLeap_def daysBefore_def

text \<open>
  The claim C1 as it was stated has the result at midnight UTC for every input that
  parses. At the year 9223372036854775807 the count of days wraps around and the result
  is a time of day of 48384 seconds, 13:26:24.
\<close>

theorem parseDate_not_midnight:
  "parseDate ''9223372036854775807/1/1'' = Inr (Time (- 62198793216) 0 UTC) \<and>
   sint (- 62198793216 :: go_int) mod 86400 = 48384"
  by (simp add: parseDate_def Atoi_def Date_defs)



subsection \<open>The record converter\<close>

lemma parseDate_empty: "parseDate [] = Inl (InvalidDateFormat [])"
  by (simp add: parseDate_def)

text \<open>
  Claim C3. \<open>ConvertToSimpleRecord\<close> parses the exit date first and the entry date only
  when that fails, the empty text failing like any other. It returns an error exactly
  when both fail (the error of the entry date); with an exit date that parses, the
  record carries that date, and with one that does not, the parsed entry date.
\<close>

theorem ConvertToSimpleRecord_date:
  "((\<exists>err. ConvertToSimpleRecord r = Inl err) \<longleftrightarrow>
      (\<exists>e1. parseDate (ExitDate r) = Inl e1) \<and> (\<exists>e2. parseDate (EntryDate r) = Inl e2)) \<and>
   (\<forall>d. parseDate (ExitDate r) = Inr d \<longrightarrow>
      (\<exists>x. ConvertToSimpleRecord r = Inr x \<and> simple_Date x = d)) \<and>
   (\<forall>e1 d. parseDate (ExitDate r) = Inl e1 \<and> parseDate (EntryDate r) = Inr d \<longrightarrow>
      (\<exists>x. ConvertToSimpleRecord r = Inr x \<and> simple_Date x = d)) \<and>
   (\<forall>e1 e2. parseDate (ExitDate r) = Inl e1 \<and> parseDate (EntryDate r) = Inl e2 \<longrightarrow>
      ConvertToSimpleRecord r = Inl e2) \<and>
   (ExitDate r = [] \<longrightarrow> (\<exists>e1. parseDate (ExitDate r) = Inl e1))"
  by (cases "parseDate (ExitDate r)"; cases "parseDate (EntryDate r)")
     (simp_all add: ConvertToSimpleRecord_def Let_def parseDate_empty)

text \<open>The claim at a record whose exit date is \<open>"invalid"\<close> and whose entry date is \<open>"25/09/01"\<close>.\<close>

theorem ConvertToSimpleRecord_date_witness:
  "\<exists>x. ConvertToSimpleRecord (zeroRecord\<lparr>EntryDate := ''25/09/01'', ExitDate := ''invalid''\<rparr>) = Inr x \<and>
       simple_Date x = Date 2025 9 1 0 0 0 0 UTC"
proof -
  let ?r = "zeroRecord\<lparr>EntryDate := ''25/09/01'', ExitDate := ''invalid''\<rparr>"
  have ex: "parseDate (ExitDate ?r) = Inl (InvalidDateFormat ''invalid'')"
    by (simp add: zeroRecord_def parseDate_def)
  have en: "parseDate (EntryDate ?r) = Inr (Date 2025 9 1 0 0 0 0 UTC)"
    by (simp add: zeroRecord_def parseDate_def Atoi_def)
  from ConvertToSimpleRecord_date [of ?r] ex en show ?thesis
    by blast
qed

text \<open>
  The amount of the simplified record is the fee amount, or the base amount when the fee
  amount is 0, without its sign, for every such amount but the least 64-bit integer.
\<close>

lemma sint_neg64:
  fixes a :: go_int
  assumes "sint a \<noteq> - (2 ^ 63)"
  shows "sint (- a) = - sint a"
proof -
  have "sint (- a) = signed_take_bit 63 (- sint a)"
    by (simp add: sint_word_ariths)
  also have "\<dots> = - sint a"
    using assms sint_bounds64 [of a] by (simp add: signed_take_bit_int_eq_self)
  finally show ?thesis .
qed

lemma ConvertToSimpleRecord_amount_abs:
  assumes "ConvertToSimpleRecord r = Inr x"
    and "a = (if ETCAmount r = 0 then NormalAmount r else ETCAmount r)"
    and "sint a \<noteq> - (2 ^ 63)"
  shows "sint (simple_Amount x) = \<bar>sint a\<bar>"
  using assms
  by (auto simp add: ConvertToSimpleRecord_def Let_def sint_neg64 split: sum.splits)

text \<open>
  Claim C4 says that the amount of the simplified record is never negative. At the fee
  amount \<open>-9223372036854775808\<close>, which \<open>parseAmount\<close> reads from a cell of that text, the
  negation wraps around and the conversion returns that same negative amount.
\<close>

theorem ConvertToSimpleRecord_amount_min_int:
  "parseAmount ''-9223372036854775808'' = Inr (- 9223372036854775808) \<and>
   (\<exists>x. ConvertToSimpleRecord
           (zeroRecord\<lparr>ExitDate := ''25/09/01'', ETCAmount := - 9223372036854775808\<rparr>) = Inr x \<and>
        sint (simple_Amount x) = - 9223372036854775808)"
  by (simp add: parseAmount_def RemoveAll_def Atoi_def ConvertToSimpleRecord_def parseDate_def
      zeroRecord_def)

subsection \<open>The batch parser\<close>

text \<open>
  A header row has a cell, so its header map has an entry: the test \<open>len(headerMap) > 0\<close>
  of the row loop holds exactly when a header was found.
\<close>

lemma isHeader_nonempty: "isHeader firstRow \<Longrightarrow> firstRow \<noteq> []"
  by (cases firstRow) simp_all

lemma update_nonempty: "AList.update k v al \<noteq> []"
  by (cases al) simp_all

lemma buildHeaderMap_nonempty:
  "cols \<noteq> [] \<or> headerMap \<noteq> [] \<Longrightarrow> buildHeaderMap idx cols headerMap \<noteq> []"
  by (induction cols arbitrary: idx headerMap) (simp_all add: update_nonempty)

lemma parseRows_headers:
  "headerMap \<noteq> [] \<Longrightarrow>
   parseRows headerMap rows etcRecords =
     etcRecords @ map (\<lambda>row. parseWithHeaders row headerMap) rows"
  by (induction rows arbitrary: etcRecords) (simp_all add: Let_def split: option.splits)

lemma parseRows_positional:
  "parseRows [] rows etcRecords =
     etcRecords @ map parsePositional (filter (\<lambda>row. 13 \<le> length row) rows)"
  by (induction rows arbitrary: etcRecords) (simp_all add: Let_def not_less split: option.splits)

lemma Parse_header:
  assumes "isHeader firstRow"
  shows "Parse (CSVReader (Inr (firstRow # rows))) =
    (if rows = [] then Inl NoDataRecords
     else Inr (map (\<lambda>row. parseWithHeaders row (buildHeaderMap 0 firstRow [])) rows))"
proof -
  have "buildHeaderMap 0 firstRow [] \<noteq> []"
    using assms isHeader_nonempty buildHeaderMap_nonempty by blast
  then show ?thesis
    using assms
    by (cases rows) (simp_all add: Parse_def ValidateRecordsAvailable_def parseRows_headers
      del: parseRows.simps)
qed

lemma Parse_positional:
  assumes "\<not> isHeader firstRow"
  shows "Parse (CSVReader (Inr (firstRow # rows))) =
    Inr (map parsePositional (filter (\<lambda>row. 13 \<le> length row) (firstRow # rows)))"
  using assms
  by (simp add: Parse_def ValidateRecordsAvailable_def parseRows_positional del: parseRows.simps)

lemmas header_names =
  EntryDate_headers_def EntryTime_headers_def ExitDate_headers_def ExitTime_headers_def
  EntryIC_headers_def ExitIC_headers_def RouteInfo_headers_def NormalAmount_headers_def
  DiscountApplied_headers_def ETCAmount_headers_def PostPayment_headers_def
  VehicleClass_headers_def VehicleNumber_headers_def CardNumber_headers_def Notes_headers_def

text \<open>
  Claim C5. \<open>Parse\<close> returns the error "CSV file is empty" exactly when the reader
  yields no row, and the error "no data records found" exactly when it yields a single
  row that is a header; a header row followed by at least one more row gives the nil error.
\<close>

theorem Parse_structural_errors:
  "(Parse rd = Inl CSVEmpty \<longleftrightarrow> rd = CSVReader (Inr [])) \<and>
   (Parse rd = Inl NoDataRecords \<longleftrightarrow> (\<exists>firstRow. rd = CSVReader (Inr [firstRow]) \<and> isHeader firstRow)) \<and>
   (\<forall>firstRow row rows. rd = CSVReader (Inr (firstRow # row # rows)) \<and> isHeader firstRow \<longrightarrow>
      (\<exists>etcRecords. Parse rd = Inr etcRecords))"
proof (cases rd)
  case NilReader
  then show ?thesis by (simp add: Parse_def)
next
  case (CSVReader res)
  show ?thesis
  proof (cases res)
    case (Inl err)
    with CSVReader show ?thesis by (simp add: Parse_def)
  next
    case (Inr records)
    show ?thesis
    proof (cases records)
      case Nil
      with CSVReader Inr show ?thesis by (simp add: Parse_def)
    next
      case (Cons firstRow rows)
      show ?thesis
      proof (cases "isHeader firstRow")
        case True
        with CSVReader Inr Cons show ?thesis
          by (simp add: Parse_header)
      next
        case False
        with CSVReader Inr Cons show ?thesis
          by (simp add: Parse_positional del: parseRows.simps)
      qed
    qed
  qed
qed

text \<open>The claim at a header row with the one cell U+6599 U+91D1 and one data row.\<close>

theorem Parse_structural_errors_witness:
  "\<exists>etcRecords. Parse (CSVReader (Inr [[headerKeywords ! 3], [''100'']])) = Inr etcRecords"
proof -
  have "isHeader [headerKeywords ! 3]"
    by (simp add: headerKeywords_def)
  with Parse_structural_errors [of "CSVReader (Inr [[headerKeywords ! 3], [''100'']])"]
  show ?thesis
    by blast
qed

text \<open>
  Claim C2. With a header row, \<open>Parse\<close> returns the nil error and the mapped record of
  every following row, in order; without one, those of all rows of at least 13 cells.
  Nothing here depends on what \<open>ValidateRecord\<close> says about a record, so a record that
  it rejects is in the result like any other.
\<close>

theorem Parse_keeps_invalid_records:
  "(isHeader firstRow \<and> rows \<noteq> [] \<longrightarrow>
      Parse (CSVReader (Inr (firstRow # rows))) =
        Inr (map (\<lambda>row. parseWithHeaders row (buildHeaderMap 0 firstRow [])) rows)) \<and>
   (\<not> isHeader firstRow \<longrightarrow>
      Parse (CSVReader (Inr (firstRow # rows))) =
        Inr (map parsePositional (filter (\<lambda>row. 13 \<le> length row) (firstRow # rows))))"
  using Parse_header [of firstRow rows] Parse_positional [of firstRow rows]
  by simp


text \<open>
  The claim at a header with a card-number and a fee column and two rows, the second with
  an empty card number: \<open>ValidateRecord\<close> rejects its record, and \<open>Parse\<close> returns both.
\<close>

theorem Parse_keeps_invalid_records_witness:
  "\<exists>r1 r2. Parse (CSVReader (Inr [[headerKeywords ! 4, headerKeywords ! 3],
                                  [''123'', ''100''], [[], ''200'']])) = Inr [r1, r2] \<and>
     ValidateRecord r1 = None \<and> ETCAmount r1 = 100 \<and>
     ValidateRecord r2 = Some CardNumberEmpty \<and> ETCAmount r2 = 200"
proof -
  let ?h = "[headerKeywords ! 4, headerKeywords ! 3]"
  let ?hm = "buildHeaderMap 0 ?h []"
  have h: "isHeader ?h"
    by (simp add: headerKeywords_def)
  have hm: "?hm = [(headerKeywords ! 4, 0), (headerKeywords ! 3, 1)]"
    by (simp add: headerKeywords_def)
  have "Parse (CSVReader (Inr [?h, [''123'', ''100''], [[], ''200'']])) =
      Inr [parseWithHeaders [''123'', ''100''] ?hm, parseWithHeaders [[], ''200''] ?hm]"
    using Parse_keeps_invalid_records [of ?h "[[''123'', ''100''], [[], ''200'']]"] h
    by simp
  moreover have "ValidateRecord (parseWithHeaders [''123'', ''100''] ?hm) = None"
    unfolding hm
    by (simp add: ValidateRecord_def parseWithHeaders_def zeroRecord_def header_names headerKeywords_def
        parseAmount_def RemoveAll_def Atoi_def)
  moreover have "ETCAmount (parseWithHeaders [''123'', ''100''] ?hm) = 100"
    unfolding hm
    by (simp add: parseWithHeaders_def zeroRecord_def header_names headerKeywords_def
        parseAmount_def RemoveAll_def Atoi_def)
  moreover have "ValidateRecord (parseWithHeaders [[], ''200''] ?hm) = Some CardNumberEmpty"
    unfolding hm
    by (simp add: ValidateRecord_def parseWithHeaders_def zeroRecord_def header_names headerKeywords_def
        parseAmount_def RemoveAll_def Atoi_def)
  moreover have "ETCAmount (parseWithHeaders [[], ''200''] ?hm) = 200"
    unfolding hm
    by (simp add: parseWithHeaders_def zeroRecord_def header_names headerKeywords_def
        parseAmount_def RemoveAll_def Atoi_def)
  ultimately show ?thesis
    by blast
qed

text \<open>The positional mapping reads nothing beyond cell 14.\<close>

lemma getFieldSafe_take: "i < k \<Longrightarrow> getFieldSafe (take k row) i = getFieldSafe row i"
  by (simp add: getFieldSafe_def)

lemma getFieldSafe_absent: "length row \<le> i \<Longrightarrow> getFieldSafe row i = []"
  by (simp add: getFieldSafe_def)

lemma parsePositional_take: "parsePositional (take 15 row) = parsePositional row"
  by (simp add: parsePositional_def positionalAmount_def ParseVehicleClass_def getFieldSafe_take)

text \<open>
  Claim C8. Without a header row, \<open>Parse\<close> returns the nil error and the positional
  mapping of exactly the rows of at least 13 cells, in order: a shorter row leaves no
  trace in the result, which is all that \<open>Parse\<close> returns. The mapping reads the cells 0
  to 14 only, and a row without cell 13 or 14 gets the empty card number or notes
  from \<open>getFieldSafe\<close>.
\<close>

theorem Parse_positional_rows:
  "(\<not> isHeader firstRow \<longrightarrow>
      Parse (CSVReader (Inr (firstRow # rows))) =
        Inr (map parsePositional (filter (\<lambda>row. 13 \<le> length row) (firstRow # rows)))) \<and>
   parsePositional row = parsePositional (take 15 row) \<and>
   (length row \<le> 13 \<longrightarrow> getFieldSafe row 13 = [] \<and> CardNumber (parsePositional row) = []) \<and>
   (length row \<le> 14 \<longrightarrow> getFieldSafe row 14 = [] \<and> Notes (parsePositional row) = [])"
  using Parse_positional [of firstRow rows]
  by (simp add: parsePositional_take getFieldSafe_absent)
     (simp add: parsePositional_def getFieldSafe_absent)


text \<open>
  The claim at three rows of 2, 13 and 17 cells: two records, the first with empty card
  number and notes, the second with the cells 13 and 14 and nothing of the cells after.
\<close>

theorem Parse_positional_rows_witness:
  "\<exists>r1 r2.
     Parse (CSVReader (Inr
       [[''x'', ''y''],
        [''25/09/01'', ''08:00'', ''25/09/01'', ''09:00'', ''A'', ''B'', ''R'',
         ''1,200'', ''1500'', ''-300'', ''7'', ''2'', ''1234''],
        [''25/09/02'', ''08:00'', ''25/09/02'', ''09:00'', ''A'', ''B'', ''R'',
         ''900'', ''abc'', [], ''7'', ''x'', ''1234'', ''card'', ''note'', ''more'', ''cells'']])) =
       Inr [r1, r2] \<and>
     ETCAmount r1 = 1200 \<and> VehicleNumber r1 = ''1234'' \<and> CardNumber r1 = [] \<and> Notes r1 = [] \<and>
     ETCAmount r2 = 900 \<and> NormalAmount r2 = 0 \<and> VehicleClass r2 = 0 \<and>
     CardNumber r2 = ''card'' \<and> Notes r2 = ''note''"
proof -
  let ?a = "[''25/09/01'', ''08:00'', ''25/09/01'', ''09:00'', ''A'', ''B'', ''R'',
         ''1,200'', ''1500'', ''-300'', ''7'', ''2'', ''1234'']"
  let ?b = "[''25/09/02'', ''08:00'', ''25/09/02'', ''09:00'', ''A'', ''B'', ''R'',
         ''900'', ''abc'', [], ''7'', ''x'', ''1234'', ''card'', ''note'', ''more'', ''cells'']"
  have nh: "\<not> isHeader [''x'', ''y'']"
    by (simp add: headerKeywords_def)
  have "Parse (CSVReader (Inr [[''x'', ''y''], ?a, ?b])) = Inr [parsePositional ?a, parsePositional ?b]"
    using Parse_positional_rows [of "[''x'', ''y'']" "[?a, ?b]"] nh
    by simp
  moreover have "ETCAmount (parsePositional ?a) = 1200"
    by (simp add: parsePositional_def positionalAmount_def getFieldSafe_def parseAmount_def
        RemoveAll_def Atoi_def)
  moreover have "VehicleNumber (parsePositional ?a) = ''1234''"
    by (simp add: parsePositional_def getFieldSafe_def)
  moreover have "CardNumber (parsePositional ?a) = [] \<and> Notes (parsePositional ?a) = []"
    using Parse_positional_rows [of "[]" "[]" ?a]
    by simp
  moreover have "ETCAmount (parsePositional ?b) = 900"
    by (simp add: parsePositional_def positionalAmount_def getFieldSafe_def parseAmount_def
        RemoveAll_def Atoi_def)
  moreover have "NormalAmount (parsePositional ?b) = 0"
    by (simp add: parsePositional_def positionalAmount_def getFieldSafe_def parseAmount_def
        RemoveAll_def Atoi_def)
  moreover have "VehicleClass (parsePositional ?b) = 0"
    by (simp add: parsePositional_def ParseVehicleClass_def getFieldSafe_def Atoi_def)
  moreover have "CardNumber (parsePositional ?b) = ''card'' \<and> Notes (parsePositional ?b) = ''note''"
    by (simp add: parsePositional_def getFieldSafe_def)
  ultimately show ?thesis
    by blast
qed

text \<open>
  Claim C10. In \<open>parseWithHeaders\<close> the cell that \<open>getFieldByHeader\<close> finds under the
  post-payment names (U+5F8C U+7D0D U+6599 U+91D1, U+5F8C U+6255 U+6599 U+91D1) becomes
  the fee amount when it is not empty and parses to a number other than 0. When it is
  empty, does not parse or parses to 0, the fee amount is the one taken from the cell
  under the toll-fee names, or 0 when that is empty or does not parse.
\<close>

theorem parseWithHeaders_post_payment:
  "(\<forall>a. getFieldByHeader record headerMap PostPayment_headers \<noteq> [] \<and>
        parseAmount (getFieldByHeader record headerMap PostPayment_headers) = Inr a \<and> a \<noteq> 0 \<longrightarrow>
        ETCAmount (parseWithHeaders record headerMap) = a) \<and>
   (getFieldByHeader record headerMap PostPayment_headers = [] \<or>
    (\<exists>err. parseAmount (getFieldByHeader record headerMap PostPayment_headers) = Inl err) \<or>
    parseAmount (getFieldByHeader record headerMap PostPayment_headers) = Inr 0 \<longrightarrow>
      ETCAmount (parseWithHeaders record headerMap) =
        (if getFieldByHeader record headerMap ETCAmount_headers \<noteq> []
         then (case parseAmount (getFieldByHeader record headerMap ETCAmount_headers) of
                 Inr v \<Rightarrow> v
               | Inl err \<Rightarrow> 0)
         else 0))"
  by (auto simp add: parseWithHeaders_def Let_def zeroRecord_def split: sum.splits)


text \<open>The claim at a header with a toll-fee and a post-payment column, at three rows.\<close>

theorem parseWithHeaders_post_payment_witness:
  "ETCAmount (parseWithHeaders [''1200'', ''500'']
      (buildHeaderMap 0 [ETCAmount_headers ! 0, PostPayment_headers ! 1] [])) = 500 \<and>
   ETCAmount (parseWithHeaders [''1200'', ''0'']
      (buildHeaderMap 0 [ETCAmount_headers ! 0, PostPayment_headers ! 1] [])) = 1200 \<and>
   ETCAmount (parseWithHeaders [''1200'', ''n/a'']
      (buildHeaderMap 0 [ETCAmount_headers ! 0, PostPayment_headers ! 1] [])) = 1200"
proof -
  let ?hm = "buildHeaderMap 0 [ETCAmount_headers ! 0, PostPayment_headers ! 1] []"
  have post: "getFieldByHeader [c0, c1] ?hm PostPayment_headers = c1" for c0 c1
    by (simp add: ETCAmount_headers_def PostPayment_headers_def)
  have fee: "getFieldByHeader [c0, c1] ?hm ETCAmount_headers = c0" for c0 c1
    by (simp add: ETCAmount_headers_def PostPayment_headers_def)
  have amounts: "parseAmount ''1200'' = Inr 1200" "parseAmount ''500'' = Inr 500"
    "parseAmount ''0'' = Inr 0" "parseAmount ''n/a'' = Inl (NumError ''n/a'' ErrSyntax)"
    by (simp_all add: parseAmount_def RemoveAll_def Atoi_def)
  have "ETCAmount (parseWithHeaders [''1200'', ''500''] ?hm) = 500"
    using parseWithHeaders_post_payment [of "[''1200'', ''500'']" ?hm]
    by (simp only: post amounts) simp
  moreover have "ETCAmount (parseWithHeaders [''1200'', ''0''] ?hm) = 1200"
    using parseWithHeaders_post_payment [of "[''1200'', ''0'']" ?hm]
    by (simp only: post fee amounts) simp
  moreover have "ETCAmount (parseWithHeaders [''1200'', ''n/a''] ?hm) = 1200"
    using parseWithHeaders_post_payment [of "[''1200'', ''n/a'']" ?hm]
    by (simp only: post fee amounts) simp
  ultimately show ?thesis
    by blast
qed

subsection \<open>The counters\<close>

text \<open>A count below \<open>2^31\<close> is the value of the \<open>int32\<close> that holds it.\<close>

lemma sint_of_nat32:
  assumes "n < 2 ^ 31"
  shows "sint (word_of_nat n :: int32) = int n"
proof -
  have "sint (word_of_nat n :: int32) = sint (word_of_int (int n) :: int32)"
    by simp
  also have "\<dots> = signed_take_bit 31 (int n)"
    by (simp only: sint_sbintrunc') simp
  also have "\<dots> = int n"
    using assms by (simp add: signed_take_bit_int_eq_self)
  finally show ?thesis .
qed

subsection \<open>Duplicates in validation\<close>

text \<open>
  The loop counts a record as a duplicate when its key is in the map already: at the end
  the count has grown by the number of records less the number of their keys that were
  not in the map at the start.
\<close>

lemma validateLoop_count:
  "fst (validateLoop validateRecord i records duplicateMap duplicateCount validationErrors) =
     duplicateCount +
       word_of_nat (length records - card (validateKey ` set records - dom duplicateMap))"
proof (induction records arbitrary: i duplicateMap duplicateCount validationErrors)
  case Nil
  then show ?case by simp
next
  case (Cons r rest)
  let ?k = "validateKey r"
  let ?K = "validateKey ` set rest"
  have le: "card (?K - D) \<le> length rest" for D
  proof -
    have "card (?K - D) \<le> card ?K"
      by (simp add: card_mono)
    also have "\<dots> \<le> length rest"
      by (metis card_image_le card_length le_trans List.finite_set)
    finally show ?thesis .
  qed
  show ?case
  proof (cases "duplicateMap ?k")
    case None
    then have notin: "?k \<notin> dom duplicateMap"
      by (simp add: domIff)
    have "insert ?k ?K - dom duplicateMap = insert ?k (?K - insert ?k (dom duplicateMap))"
      using notin by auto
    moreover have "?k \<notin> ?K - insert ?k (dom duplicateMap)"
      by simp
    ultimately have "card (insert ?k ?K - dom duplicateMap) =
        Suc (card (?K - insert ?k (dom duplicateMap)))"
      by simp
    moreover have "dom (\<lambda>a. if a = ?k then Some 1 else duplicateMap a) =
        insert ?k (dom duplicateMap)"
      by (auto simp add: dom_def)
    ultimately show ?thesis
      using None by (simp add: Cons.IH Let_def)
  next
    case (Some c)
    then have "?k \<in> dom duplicateMap"
      by (simp add: domIff)
    then have same: "insert ?k ?K - dom duplicateMap = ?K - dom duplicateMap"
      by auto
    have domeq: "dom (\<lambda>a. if a = ?k then Some (c + 1) else duplicateMap a) = dom duplicateMap"
      using Some by (auto simp add: dom_def)
    have "Suc (length rest) - card (?K - dom duplicateMap) =
        Suc (length rest - card (?K - dom duplicateMap))"
      using le [of "dom duplicateMap"] by (simp add: Suc_diff_le)
    with Some same domeq show ?thesis
      by (simp add: Cons.IH Let_def)
  qed
qed


lemma same_fields_validateKey:
  assumes "\<forall>r \<in> set records. EntryDate r = d1 \<and> EntryTime r = t1 \<and> ExitDate r = d2 \<and>
             ExitTime r = t2 \<and> ETCAmount r = a"
    and "records \<noteq> []"
  shows "card (validateKey ` set records) = 1"
proof -
  have "\<forall>r \<in> set records. validateKey r = d1 @ ''_'' @ t1 @ ''_'' @ d2 @ ''_'' @ t2 @ ''_'' @ fmt_d (sint a)"
    using assms(1) by (simp add: validateKey_def)
  with assms(2) have "validateKey ` set records = {d1 @ ''_'' @ t1 @ ''_'' @ d2 @ ''_'' @ t2 @ ''_'' @ fmt_d (sint a)}"
    by (cases records) auto
  then show ?thesis by simp
qed

text \<open>
  Claim C7. On records that \<open>Parse\<close> returned, \<open>ValidateCSVData\<close> reports their number
  as the total and, as the number of duplicates, the number of records less the number
  of distinct keys, one pass counting every record whose key an earlier record had. For
  \<open>n\<close> records with the same entry and exit dates and times and fee amount that is
  \<open>n - 1\<close>; both are the \<open>int32\<close> of these numbers, and their values below \<open>2^31\<close>
  records.
\<close>

theorem ValidateCSVData_duplicates:
  "\<exists>resp. ValidateCSVData None (Inr records) validateRecord = Inr resp \<and>
     ResponseTotalRecords resp = word_of_nat (length records) \<and>
     DuplicateCount resp = word_of_nat (length records - card (validateKey ` set records)) \<and>
     ((\<forall>r \<in> set records. EntryDate r = d1 \<and> EntryTime r = t1 \<and> ExitDate r = d2 \<and>
          ExitTime r = t2 \<and> ETCAmount r = a) \<longrightarrow>
        DuplicateCount resp = word_of_nat (length records - 1) \<and>
        (records \<noteq> [] \<and> length records < 2 ^ 31 \<longrightarrow>
           sint (DuplicateCount resp) = int (length records) - 1 \<and>
           sint (ResponseTotalRecords resp) = int (length records)))"
proof -
  obtain duplicateCount validationErrors where
    loop: "validateLoop validateRecord 0 records Map.empty 0 [] = (duplicateCount, validationErrors)"
    by (cases "validateLoop validateRecord 0 records Map.empty 0 []")
  let ?resp = "\<lparr>IsValid = (length validationErrors = 0), Errors = validationErrors,
      DuplicateCount = duplicateCount, ResponseTotalRecords = word_of_nat (length records)\<rparr>"
  have resp: "ValidateCSVData None (Inr records) validateRecord = Inr ?resp"
    by (simp add: ValidateCSVData_def loop)
  have count: "duplicateCount = word_of_nat (length records - card (validateKey ` set records))"
    using validateLoop_count [of validateRecord 0 records Map.empty 0 "[]"] loop by simp
  have same: "duplicateCount = word_of_nat (length records - 1) \<and>
        (records \<noteq> [] \<and> length records < 2 ^ 31 \<longrightarrow>
           sint duplicateCount = int (length records) - 1 \<and>
           sint (word_of_nat (length records) :: int32) = int (length records))"
    if eq: "\<forall>r \<in> set records. EntryDate r = d1 \<and> EntryTime r = t1 \<and> ExitDate r = d2 \<and>
          ExitTime r = t2 \<and> ETCAmount r = a"
  proof (cases "records = []")
    case True
    with count show ?thesis by simp
  next
    case False
    with eq have "card (validateKey ` set records) = 1"
      by (rule same_fields_validateKey)
    with count have c: "duplicateCount = word_of_nat (length records - 1)"
      by simp
    have s1: "sint (word_of_nat (length records - 1) :: int32) = int (length records) - 1"
      if "length records < 2 ^ 31"
    proof -
      have "length records - 1 < 2 ^ 31"
        using that by simp
      then have "sint (word_of_nat (length records - 1) :: int32) = int (length records - 1)"
        by (rule sint_of_nat32)
      also have "\<dots> = int (length records) - 1"
        using False by (cases records) simp_all
      finally show ?thesis .
    qed
    have s2: "sint (word_of_nat (length records) :: int32) = int (length records)"
      if "length records < 2 ^ 31"
      using that by (rule sint_of_nat32)
    show ?thesis
      unfolding c using s1 s2 by blast
  qed
  from resp count same show ?thesis
    by auto
qed

text \<open>The claim at three identical records: two duplicates, three records in total.\<close>

theorem ValidateCSVData_duplicates_witness:
  "\<exists>resp. ValidateCSVData None
       (Inr (replicate 3 (zeroRecord\<lparr>EntryDate := ''25/09/01'', EntryTime := ''08:00'',
                ExitDate := ''25/09/01'', ExitTime := ''09:00'', ETCAmount := 1200,
                CardNumber := ''12345678''\<rparr>)))
       (\<lambda>r. map_option (\<lambda>err. ''invalid record'') (ValidateRecord r)) = Inr resp \<and>
     sint (DuplicateCount resp) = 2 \<and> sint (ResponseTotalRecords resp) = 3"
proof -
  let ?r = "zeroRecord\<lparr>EntryDate := ''25/09/01'', EntryTime := ''08:00'',
                ExitDate := ''25/09/01'', ExitTime := ''09:00'', ETCAmount := 1200,
                CardNumber := ''12345678''\<rparr>"
  have "\<forall>r \<in> set (replicate 3 ?r). EntryDate r = ''25/09/01'' \<and> EntryTime r = ''08:00'' \<and>
      ExitDate r = ''25/09/01'' \<and> ExitTime r = ''09:00'' \<and> ETCAmount r = 1200"
    by (simp add: zeroRecord_def)
  with ValidateCSVData_duplicates [of "replicate 3 ?r" _ "''25/09/01''" "''08:00''" "''25/09/01''"
      "''09:00''" 1200]
  show ?thesis
    by fastforce
qed

subsection \<open>Processing records\<close>

text \<open>
  With \<open>skipDuplicates\<close> set, records whose key has been processed are skipped one
  after the other while the context is not cancelled.
\<close>

lemma processLoop_skip_all:
  assumes "processedKeys st k"
    and "\<forall>r \<in> set rest. processKey r = k"
    and "\<forall>j. i \<le> j \<and> j < i + length rest \<longrightarrow> \<not> ctx j"
  shows "processLoop ctx convert dbClient accountID True n i rest st =
    st\<lparr>stats := (stats st)\<lparr>SkippedRecords := SkippedRecords (stats st) + word_of_nat (length rest)\<rparr>\<rparr>"
  using assms
proof (induction rest arbitrary: i st)
  case Nil
  then show ?case by simp
next
  case (Cons r rest)
  let ?st = "st\<lparr>stats := (stats st)\<lparr>SkippedRecords := SkippedRecords (stats st) + 1\<rparr>\<rparr>"
  have notc: "\<not> ctx i"
    using Cons.prems(3) by simp
  have key: "processKey r = k"
    using Cons.prems(2) by simp
  have "processLoop ctx convert dbClient accountID True n i (r # rest) st =
      processLoop ctx convert dbClient accountID True n (Suc i) rest ?st"
    using notc key Cons.prems(1) by (simp add: processRecord_def)
  also have "\<dots> =
      ?st\<lparr>stats := (stats ?st)\<lparr>SkippedRecords := SkippedRecords (stats ?st) + word_of_nat (length rest)\<rparr>\<rparr>"
  proof (rule Cons.IH)
    show "processedKeys ?st k"
      using Cons.prems(1) by simp
    show "\<forall>r \<in> set rest. processKey r = k"
      using Cons.prems(2) by simp
    show "\<forall>j. Suc i \<le> j \<and> j < Suc i + length rest \<longrightarrow> \<not> ctx j"
      using Cons.prems(3) by simp
  qed
  also have "\<dots> =
      st\<lparr>stats := (stats st)\<lparr>SkippedRecords := SkippedRecords (stats st) + word_of_nat (length (r # rest))\<rparr>\<rparr>"
    by (simp add: add.assoc)
  finally show ?case .
qed

text \<open>A record that is not skipped, converts and is accepted by the database is saved and its key marked.\<close>

lemma processRecord_saved:
  assumes "\<not> (skipDuplicates \<and> processedKeys st (processKey r))"
    and "convert r = Inr simpleRecord"
    and "\<forall>SaveETCData. dbClient = Some SaveETCData \<longrightarrow>
        fst (SaveETCData (db st) (dataToSave accountID simpleRecord)) = None"
  shows "\<exists>db' calls'.
    processRecord convert dbClient accountID skipDuplicates i r st =
      st\<lparr>db := db', calls := calls',
         processedKeys := (processedKeys st)(processKey r := True),
         stats := (stats st)\<lparr>SavedRecords := SavedRecords (stats st) + 1\<rparr>\<rparr>"
proof (cases dbClient)
  case None
  have "processRecord convert dbClient accountID skipDuplicates i r st =
      st\<lparr>db := db st, calls := calls st @ [ConvertCall i],
         processedKeys := (processedKeys st)(processKey r := True),
         stats := (stats st)\<lparr>SavedRecords := SavedRecords (stats st) + 1\<rparr>\<rparr>"
    using None assms(1,2) by (cases skipDuplicates) (simp_all add: processRecord_def Let_def)
  then show ?thesis by blast
next
  case (Some SaveETCData)
  with assms(3) obtain db' where
    sv: "SaveETCData (db st) (dataToSave accountID simpleRecord) = (None, db')"
    by (cases "SaveETCData (db st) (dataToSave accountID simpleRecord)") auto
  have "processRecord convert dbClient accountID skipDuplicates i r st =
      st\<lparr>db := db', calls := calls st @ [ConvertCall i, SaveCall i],
         processedKeys := (processedKeys st)(processKey r := True),
         stats := (stats st)\<lparr>SavedRecords := SavedRecords (stats st) + 1\<rparr>\<rparr>"
    using Some sv assms(1,2) by (cases skipDuplicates) (simp_all add: processRecord_def Let_def)
  then show ?thesis by blast
qed

text \<open>
  Claim C6. With \<open>skipDuplicates\<close> set and a context that is not cancelled, for
  \<open>n \<ge> 1\<close> records that agree in entry and exit dates and times, fee amount and card
  number, the first of which converts and is accepted by the database (or there is no
  database client), \<open>processRecords\<close> returns the total \<open>n\<close>, 1 saved, \<open>n - 1\<close> skipped
  and 0 errored, without any diagnostic; the counters are the \<open>int32\<close> of these
  numbers, and their values below \<open>2^31\<close> records.
\<close>

theorem processRecords_skip_duplicates:
  assumes same: "\<forall>r \<in> set rest. EntryDate r = EntryDate r0 \<and> EntryTime r = EntryTime r0 \<and>
        ExitDate r = ExitDate r0 \<and> ExitTime r = ExitTime r0 \<and> ETCAmount r = ETCAmount r0 \<and>
        CardNumber r = CardNumber r0"
    and ctx: "\<forall>i < length (r0 # rest). \<not> ctx i"
    and conv: "convert r0 = Inr simpleRecord"
    and accept: "\<forall>SaveETCData. dbClient = Some SaveETCData \<longrightarrow>
        fst (SaveETCData db0 (dataToSave accountID simpleRecord)) = None"
  shows "\<exists>st. processRecords ctx convert dbClient db0 (r0 # rest) accountID True = st \<and>
         TotalRecords (stats st) = word_of_nat (length (r0 # rest)) \<and>
         SavedRecords (stats st) = 1 \<and>
         SkippedRecords (stats st) = word_of_nat (length (r0 # rest) - 1) \<and>
         ErrorRecords (stats st) = 0 \<and>
         errors st = [] \<and>
         (length (r0 # rest) < 2 ^ 31 \<longrightarrow>
            sint (TotalRecords (stats st)) = int (length (r0 # rest)) \<and>
            sint (SkippedRecords (stats st)) = int (length (r0 # rest)) - 1)"
proof -
  let ?n = "length (r0 # rest)"
  let ?init = "\<lparr>stats = \<lparr>TotalRecords = word_of_nat ?n, SavedRecords = 0,
                 SkippedRecords = 0, ErrorRecords = 0\<rparr>,
        errors = [], processedKeys = (\<lambda>key. False), db = db0, calls = []\<rparr>"
  let ?k = "processKey r0"
  have keys: "\<forall>r \<in> set rest. processKey r = ?k"
    using same by (simp add: processKey_def)
  have notc: "\<not> ctx 0" and notcs: "\<forall>j. Suc 0 \<le> j \<and> j < Suc 0 + length rest \<longrightarrow> \<not> ctx j"
    using ctx by auto
  have "\<exists>db' calls'.
    processRecord convert dbClient accountID True 0 r0 ?init =
      ?init\<lparr>db := db', calls := calls',
          processedKeys := (processedKeys ?init)(?k := True),
          stats := (stats ?init)\<lparr>SavedRecords := SavedRecords (stats ?init) + 1\<rparr>\<rparr>"
  proof (rule processRecord_saved)
    show "\<not> (True \<and> processedKeys ?init ?k)" by simp
    show "convert r0 = Inr simpleRecord" by (rule conv)
    show "\<forall>SaveETCData. dbClient = Some SaveETCData \<longrightarrow>
        fst (SaveETCData (db ?init) (dataToSave accountID simpleRecord)) = None"
      using accept by simp
  qed
  then obtain db' calls' where
    rec: "processRecord convert dbClient accountID True 0 r0 ?init =
      ?init\<lparr>db := db', calls := calls',
          processedKeys := (processedKeys ?init)(?k := True),
          stats := (stats ?init)\<lparr>SavedRecords := SavedRecords (stats ?init) + 1\<rparr>\<rparr>"
    by blast
  have step: "processLoop ctx convert dbClient accountID True ?n 0 (r0 # rest) ?init =
      processLoop ctx convert dbClient accountID True ?n (Suc 0) rest
        (?init\<lparr>db := db', calls := calls',
            processedKeys := (processedKeys ?init)(?k := True),
            stats := (stats ?init)\<lparr>SavedRecords := SavedRecords (stats ?init) + 1\<rparr>\<rparr>)"
    using notc by (simp only: processLoop.simps rec if_False)
  let ?st1 = "?init\<lparr>db := db', calls := calls',
            processedKeys := (processedKeys ?init)(?k := True),
            stats := (stats ?init)\<lparr>SavedRecords := SavedRecords (stats ?init) + 1\<rparr>\<rparr>"
  have pk: "processedKeys ?st1 ?k"
    by simp
  have "processLoop ctx convert dbClient accountID True ?n (Suc 0) rest ?st1 =
      ?st1\<lparr>stats := (stats ?st1)\<lparr>SkippedRecords := SkippedRecords (stats ?st1) + word_of_nat (length rest)\<rparr>\<rparr>"
    using pk keys notcs by (rule processLoop_skip_all)
  with step have fin: "processRecords ctx convert dbClient db0 (r0 # rest) accountID True =
      ?st1\<lparr>stats := (stats ?st1)\<lparr>SkippedRecords := SkippedRecords (stats ?st1) + word_of_nat (length rest)\<rparr>\<rparr>"
    by (simp only: processRecords_def)
  have s1: "sint (word_of_nat (Suc (length rest)) :: int32) = int (Suc (length rest))"
    if "Suc (length rest) < 2 ^ 31"
    using that by (rule sint_of_nat32)
  have s2: "sint (word_of_nat (length rest) :: int32) = int (length rest)"
    if "Suc (length rest) < 2 ^ 31"
    using that by (simp add: sint_of_nat32)
  show ?thesis
    unfolding fin using s1 s2 by (simp del: of_nat_Suc)
qed

text \<open>The claim at five identical records: 5 in total, 1 saved, 4 skipped.\<close>

theorem processRecords_skip_duplicates_witness:
  "\<exists>st. processRecords (\<lambda>i. False)
          (\<lambda>r. case ConvertToSimpleRecord r of Inl err \<Rightarrow> Inl ''date error'' | Inr x \<Rightarrow> Inr x)
          (Some (\<lambda>saved data. (None, saved @ [data]))) []
          (replicate 5 (zeroRecord\<lparr>EntryDate := ''25/09/01'', EntryTime := ''08:00'',
             ExitDate := ''25/09/01'', ExitTime := ''09:00'', ETCAmount := 1200,
             CardNumber := ''12345678''\<rparr>))
          ''test-account'' True = st \<and>
        sint (TotalRecords (stats st)) = 5 \<and> SavedRecords (stats st) = 1 \<and>
        sint (SkippedRecords (stats st)) = 4 \<and> ErrorRecords (stats st) = 0"
proof -
  let ?r = "zeroRecord\<lparr>EntryDate := ''25/09/01'', EntryTime := ''08:00'',
             ExitDate := ''25/09/01'', ExitTime := ''09:00'', ETCAmount := 1200,
             CardNumber := ''12345678''\<rparr>"
  let ?convert = "\<lambda>r. case ConvertToSimpleRecord r of Inl err \<Rightarrow> Inl ''date error'' | Inr x \<Rightarrow> Inr x"
  let ?db = "Some (\<lambda>saved data. (None :: string option, saved @ [data :: SaveData]))"
  obtain x where "ConvertToSimpleRecord ?r = Inr x"
    by (simp add: ConvertToSimpleRecord_def parseDate_def Atoi_def zeroRecord_def)
  then have conv: "?convert ?r = Inr x"
    by simp
  have five: "replicate 5 ?r = ?r # replicate 4 ?r"
    by (simp add: numeral_eq_Suc)
  have "\<exists>st. processRecords (\<lambda>i. False) ?convert ?db [] (?r # replicate 4 ?r) ''test-account'' True = st \<and>
         TotalRecords (stats st) = word_of_nat (length (?r # replicate 4 ?r)) \<and>
         SavedRecords (stats st) = 1 \<and>
         SkippedRecords (stats st) = word_of_nat (length (?r # replicate 4 ?r) - 1) \<and>
         ErrorRecords (stats st) = 0 \<and>
         errors st = [] \<and>
         (length (?r # replicate 4 ?r) < 2 ^ 31 \<longrightarrow>
            sint (TotalRecords (stats st)) = int (length (?r # replicate 4 ?r)) \<and>
            sint (SkippedRecords (stats st)) = int (length (?r # replicate 4 ?r)) - 1)"
  proof (rule processRecords_skip_duplicates [where simpleRecord = x])
    show "\<forall>r \<in> set (replicate 4 ?r). EntryDate r = EntryDate ?r \<and> EntryTime r = EntryTime ?r \<and>
        ExitDate r = ExitDate ?r \<and> ExitTime r = ExitTime ?r \<and> ETCAmount r = ETCAmount ?r \<and>
        CardNumber r = CardNumber ?r"
      by simp
    show "\<forall>i < length (?r # replicate 4 ?r). \<not> False"
      by simp
    show "?convert ?r = Inr x"
      by (rule conv)
    show "\<forall>SaveETCData. ?db = Some SaveETCData \<longrightarrow> fst (SaveETCData [] (dataToSave ''test-account'' x)) = None"
      by simp
  qed
  then show ?thesis
    unfolding five by simp
qed

subsection \<open>Cancellation\<close>

text \<open>
  When the context is first found cancelled at the record after the prefix \<open>pre\<close>, the
  loop ends in the state that it reaches on \<open>pre\<close> alone, with the diagnostic appended
  and the count of errors set.
\<close>

lemma processLoop_cancel_at:
  assumes "\<forall>j. i0 \<le> j \<and> j < i0 + length pre \<longrightarrow> \<not> ctx j"
    and "ctx (i0 + length pre)"
  shows "processLoop ctx convert dbClient accountID skipDuplicates n i0 (pre @ r # post) st =
    (processLoop ctx convert dbClient accountID skipDuplicates n i0 pre st)
      \<lparr>errors := errors (processLoop ctx convert dbClient accountID skipDuplicates n i0 pre st) @
          [''Processing cancelled at record '' @ fmt_d (int (i0 + length pre))],
       stats := (stats (processLoop ctx convert dbClient accountID skipDuplicates n i0 pre st))
          \<lparr>ErrorRecords := word_of_nat (n - (i0 + length pre))\<rparr>\<rparr>"
  using assms
proof (induction pre arbitrary: i0 st)
  case Nil
  then show ?case by simp
next
  case (Cons x pre)
  have notc: "\<not> ctx i0"
    using Cons.prems(1) by simp
  have rest: "\<forall>j. Suc i0 \<le> j \<and> j < Suc i0 + length pre \<longrightarrow> \<not> ctx j"
    using Cons.prems(1) by simp
  have at: "ctx (Suc i0 + length pre)"
    using Cons.prems(2) by simp
  show ?case
    using notc Cons.IH [OF rest at] by simp
qed

lemma processRecord_total:
  "processRecord convert dbClient accountID skipDuplicates i r
      (st\<lparr>stats := (stats st)\<lparr>TotalRecords := t\<rparr>\<rparr>) =
   (processRecord convert dbClient accountID skipDuplicates i r st)
      \<lparr>stats := (stats (processRecord convert dbClient accountID skipDuplicates i r st))
          \<lparr>TotalRecords := t\<rparr>\<rparr>"
  by (simp add: processRecord_def Let_def split: sum.splits option.splits prod.splits)

lemma processLoop_total:
  assumes "\<forall>j. i0 \<le> j \<and> j < i0 + length recs \<longrightarrow> \<not> ctx j"
  shows "processLoop ctx convert dbClient accountID skipDuplicates n i0 recs
      (st\<lparr>stats := (stats st)\<lparr>TotalRecords := t\<rparr>\<rparr>) =
   (processLoop ctx convert dbClient accountID skipDuplicates n' i0 recs st)
      \<lparr>stats := (stats (processLoop ctx convert dbClient accountID skipDuplicates n' i0 recs st))
          \<lparr>TotalRecords := t\<rparr>\<rparr>"
  using assms
proof (induction recs arbitrary: i0 st)
  case Nil
  then show ?case by simp
next
  case (Cons x recs)
  have notc: "\<not> ctx i0"
    using Cons.prems by simp
  have rest: "\<forall>j. Suc i0 \<le> j \<and> j < Suc i0 + length recs \<longrightarrow> \<not> ctx j"
    using Cons.prems by simp
  show ?case
    using notc Cons.IH [OF rest] by (simp add: processRecord_total)
qed

lemma processRecord_calls:
  assumes "c \<in> set (calls (processRecord convert dbClient accountID skipDuplicates i r st))"
  shows "c \<in> set (calls st) \<or> call_index c = i"
  using assms
  by (auto simp add: processRecord_def Let_def split: if_splits sum.splits option.splits prod.splits)

lemma processLoop_calls:
  assumes "c \<in> set (calls (processLoop ctx convert dbClient accountID skipDuplicates n i0 recs st))"
  shows "c \<in> set (calls st) \<or> (i0 \<le> call_index c \<and> call_index c < i0 + length recs)"
  using assms
proof (induction recs arbitrary: i0 st)
  case Nil
  then show ?case by simp
next
  case (Cons x recs)
  show ?case
  proof (cases "ctx i0")
    case True
    with Cons.prems show ?thesis by simp
  next
    case False
    with Cons.prems have
      "c \<in> set (calls (processLoop ctx convert dbClient accountID skipDuplicates n (Suc i0) recs
          (processRecord convert dbClient accountID skipDuplicates i0 x st)))"
      by simp
    then have "c \<in> set (calls (processRecord convert dbClient accountID skipDuplicates i0 x st)) \<or>
        (Suc i0 \<le> call_index c \<and> call_index c < Suc i0 + length recs)"
      by (rule Cons.IH)
    then show ?thesis
      using processRecord_calls [of c convert dbClient accountID skipDuplicates i0 x st]
      by auto
  qed
qed


lemma processRecord_errors:
  assumes "e \<in> set (errors (processRecord convert dbClient accountID skipDuplicates i r st))"
  shows "e \<in> set (errors st) \<or> \<not> HasPrefix e ''Processing cancelled at record ''"
  using assms
  by (auto simp add: processRecord_def Let_def split: if_splits sum.splits option.splits prod.splits)

lemma processLoop_errors:
  assumes "\<forall>j. i0 \<le> j \<and> j < i0 + length recs \<longrightarrow> \<not> ctx j"
    and "e \<in> set (errors (processLoop ctx convert dbClient accountID skipDuplicates n i0 recs st))"
  shows "e \<in> set (errors st) \<or> \<not> HasPrefix e ''Processing cancelled at record ''"
  using assms
proof (induction recs arbitrary: i0 st)
  case Nil
  then show ?case by simp
next
  case (Cons x recs)
  have notc: "\<not> ctx i0"
    using Cons.prems(1) by simp
  have rest: "\<forall>j. Suc i0 \<le> j \<and> j < Suc i0 + length recs \<longrightarrow> \<not> ctx j"
    using Cons.prems(1) by simp
  from notc Cons.prems(2) have
    "e \<in> set (errors (processLoop ctx convert dbClient accountID skipDuplicates n (Suc i0) recs
        (processRecord convert dbClient accountID skipDuplicates i0 x st)))"
    by simp
  with rest have "e \<in> set (errors (processRecord convert dbClient accountID skipDuplicates i0 x st)) \<or>
      \<not> HasPrefix e ''Processing cancelled at record ''"
    by (rule Cons.IH)
  then show ?case
    using processRecord_errors [of e convert dbClient accountID skipDuplicates i0 x st]
    by auto
qed

lemma HasPrefix_append: "HasPrefix (p @ s) p"
  by (induction p) simp_all

lemma fmt_d_0: "fmt_d (int 0) = ''0''"
  by (simp add: fmt_d_def decimal.simps)

text \<open>
  Claim C9. When the context is cancelled as the loop reaches the record at index \<open>i\<close>
  (and was not before), \<open>processRecords\<close> ends as it does on the first \<open>i\<close> records
  alone: the same calls to the converter and the database, all for records before \<open>i\<close>,
  the same database state, the same saved and skipped counts. To the diagnostics of that
  run, none of which speaks of cancellation, it appends the one that names \<open>i\<close>, and it
  sets the count of errors to the number of records less \<open>i\<close>. For \<open>i = 0\<close> the count of
  errors is the total, nothing is saved and the diagnostic is the only one.
\<close>

theorem processRecords_cancelled:
  assumes "i < length records" and "\<forall>j < i. \<not> ctx j" and "ctx i"
  shows "\<exists>st pre.
     processRecords ctx convert dbClient db0 records accountID skipDuplicates = st \<and>
     processRecords ctx convert dbClient db0 (take i records) accountID skipDuplicates = pre \<and>
     (\<forall>c \<in> set (calls st). call_index c < i) \<and>
     calls st = calls pre \<and> db st = db pre \<and>
     errors st = errors pre @ [''Processing cancelled at record '' @ fmt_d (int i)] \<and>
     length (filter (\<lambda>e. HasPrefix e ''Processing cancelled at record '') (errors st)) = 1 \<and>
     ErrorRecords (stats st) = word_of_nat (length records - i) \<and>
     TotalRecords (stats st) = word_of_nat (length records) \<and>
     SavedRecords (stats st) = SavedRecords (stats pre) \<and>
     SkippedRecords (stats st) = SkippedRecords (stats pre) \<and>
     (length records < 2 ^ 31 \<longrightarrow>
        sint (ErrorRecords (stats st)) = int (length records) - int i) \<and>
     (i = 0 \<longrightarrow>
        ErrorRecords (stats st) = TotalRecords (stats st) \<and> SavedRecords (stats st) = 0 \<and>
        errors st = [''Processing cancelled at record 0''])"
proof -
  let ?n = "length records"
  let ?msg = "''Processing cancelled at record '' @ fmt_d (int i)"
  let ?init = "\<lambda>m. \<lparr>stats = \<lparr>TotalRecords = word_of_nat m, SavedRecords = 0,
                 SkippedRecords = 0, ErrorRecords = 0\<rparr>,
        errors = [], processedKeys = (\<lambda>key. False), db = db0, calls = []\<rparr>"
  let ?pre = "processRecords ctx convert dbClient db0 (take i records) accountID skipDuplicates"
  let ?st = "processRecords ctx convert dbClient db0 records accountID skipDuplicates"
  have len: "length (take i records) = i"
    using assms(1) by simp
  have split: "records = take i records @ records ! i # drop (Suc i) records"
    using assms(1) by (simp add: id_take_nth_drop)
  have unc: "\<forall>j. 0 \<le> j \<and> j < 0 + length (take i records) \<longrightarrow> \<not> ctx j"
    using assms(2) len by simp
  have at: "ctx (0 + length (take i records))"
    using assms(3) len by simp
  have pre: "?pre = processLoop ctx convert dbClient accountID skipDuplicates i 0 (take i records) (?init i)"
    by (simp only: processRecords_def len)
  have "?init ?n = (?init i)\<lparr>stats := (stats (?init i))\<lparr>TotalRecords := word_of_nat ?n\<rparr>\<rparr>"
    by simp
  then have mid: "processLoop ctx convert dbClient accountID skipDuplicates ?n 0 (take i records) (?init ?n) =
      ?pre\<lparr>stats := (stats ?pre)\<lparr>TotalRecords := word_of_nat ?n\<rparr>\<rparr>"
    using processLoop_total [OF unc, where convert = convert and dbClient = dbClient and
        accountID = accountID and skipDuplicates = skipDuplicates and n = ?n and st = "?init i" and
        t = "word_of_nat ?n" and n' = i]
    by (simp only: pre)
  have "?st = processLoop ctx convert dbClient accountID skipDuplicates ?n 0
      (take i records @ records ! i # drop (Suc i) records) (?init ?n)"
    using split by (simp only: processRecords_def)
  also have "\<dots> =
    (processLoop ctx convert dbClient accountID skipDuplicates ?n 0 (take i records) (?init ?n))
      \<lparr>errors := errors (processLoop ctx convert dbClient accountID skipDuplicates ?n 0
            (take i records) (?init ?n)) @
          [''Processing cancelled at record '' @ fmt_d (int (0 + length (take i records)))],
       stats := (stats (processLoop ctx convert dbClient accountID skipDuplicates ?n 0
            (take i records) (?init ?n)))
          \<lparr>ErrorRecords := word_of_nat (?n - (0 + length (take i records)))\<rparr>\<rparr>"
    using unc at by (rule processLoop_cancel_at)
  finally have st: "?st = ?pre\<lparr>errors := errors ?pre @ [?msg],
      stats := (stats ?pre)\<lparr>TotalRecords := word_of_nat ?n, ErrorRecords := word_of_nat (?n - i)\<rparr>\<rparr>"
    unfolding mid len by simp
  have callsb: "\<forall>c \<in> set (calls ?pre). call_index c < i"
  proof
    fix c assume "c \<in> set (calls ?pre)"
    then have "c \<in> set (calls (processLoop ctx convert dbClient accountID skipDuplicates i 0
        (take i records) (?init i)))"
      by (simp only: pre)
    then have "c \<in> set (calls (?init i)) \<or> (0 \<le> call_index c \<and> call_index c < 0 + length (take i records))"
      by (rule processLoop_calls)
    then show "call_index c < i"
      using len by simp
  qed
  have errs: "filter (\<lambda>e. HasPrefix e ''Processing cancelled at record '') (errors ?pre) = []"
  proof -
    have "\<not> HasPrefix e ''Processing cancelled at record ''" if "e \<in> set (errors ?pre)" for e
    proof -
      from that have "e \<in> set (errors (processLoop ctx convert dbClient accountID skipDuplicates i 0
          (take i records) (?init i)))"
        by (simp only: pre)
      with unc have "e \<in> set (errors (?init i)) \<or> \<not> HasPrefix e ''Processing cancelled at record ''"
        by (rule processLoop_errors)
      then show ?thesis by simp
    qed
    then show ?thesis
      by (simp add: filter_empty_conv)
  qed
  have one: "length (filter (\<lambda>e. HasPrefix e ''Processing cancelled at record '') (errors ?st)) = 1"
    using errs HasPrefix_append [of "''Processing cancelled at record ''" "fmt_d (int i)"]
    by (simp add: st)
  have signed: "sint (word_of_nat (?n - i) :: int32) = int ?n - int i" if "?n < 2 ^ 31"
  proof -
    have "?n - i < 2 ^ 31"
      using that by simp
    then have "sint (word_of_nat (?n - i) :: int32) = int (?n - i)"
      by (rule sint_of_nat32)
    then show ?thesis
      using assms(1) by simp
  qed
  have zero: "ErrorRecords (stats ?st) = TotalRecords (stats ?st) \<and> SavedRecords (stats ?st) = 0 \<and>
        errors ?st = [''Processing cancelled at record 0'']" if "i = 0"
  proof -
    have p0: "?pre = ?init 0"
      using that by (simp add: processRecords_def)
    show ?thesis
      unfolding st p0 using that fmt_d_0 by simp
  qed
  show ?thesis
    using callsb one signed zero by (simp add: st)
qed


text \<open>
  The claim at three records and a context cancelled from index 1 on: one conversion and
  one store call, both for record 0, one record saved, two counted as errors.
\<close>

theorem processRecords_cancelled_witness:
  "\<exists>st. processRecords (\<lambda>i. 1 \<le> i)
          (\<lambda>r. case ConvertToSimpleRecord r of Inl err \<Rightarrow> Inl ''date error'' | Inr x \<Rightarrow> Inr x)
          (Some (\<lambda>saved data. (None, saved @ [data]))) []
          (replicate 3 (zeroRecord\<lparr>EntryDate := ''25/09/01'', ExitDate := ''25/09/02'',
             ETCAmount := 1200, CardNumber := ''12345678''\<rparr>))
          ''test-account'' False = st \<and>
        calls st = [ConvertCall 0, SaveCall 0] \<and> length (db st) = 1 \<and>
        errors st = [''Processing cancelled at record 1''] \<and>
        sint (ErrorRecords (stats st)) = 2 \<and> SavedRecords (stats st) = 1 \<and>
        TotalRecords (stats st) = 3"
proof -
  let ?r = "zeroRecord\<lparr>EntryDate := ''25/09/01'', ExitDate := ''25/09/02'',
             ETCAmount := 1200, CardNumber := ''12345678''\<rparr>"
  let ?ctx = "\<lambda>i::nat. 1 \<le> i"
  let ?convert = "\<lambda>r. case ConvertToSimpleRecord r of Inl err \<Rightarrow> Inl ''date error'' | Inr x \<Rightarrow> Inr x"
  let ?db = "Some (\<lambda>saved data. (None :: string option, saved @ [data :: SaveData]))"
  let ?pre = "processRecords ?ctx ?convert ?db [] (take 1 (replicate 3 ?r)) ''test-account'' False"
  obtain x where "ConvertToSimpleRecord ?r = Inr x"
    by (simp add: ConvertToSimpleRecord_def parseDate_def Atoi_def zeroRecord_def)
  then have conv: "?convert ?r = Inr x"
    by simp
  have one: "take 1 (replicate 3 ?r) = [?r]"
    by (simp add: numeral_eq_Suc)
  have pre: "calls ?pre = [ConvertCall 0, SaveCall 0] \<and> length (db ?pre) = 1 \<and> errors ?pre = [] \<and>
      SavedRecords (stats ?pre) = 1"
    unfolding one using conv by (simp add: processRecords_def processRecord_def)
  have msg: "fmt_d (int 1) = ''1''"
    by (simp add: fmt_d_def decimal.simps)
  have "1 < length (replicate 3 ?r)" "\<forall>j < 1. \<not> ?ctx j" "?ctx 1"
    by simp_all
  from processRecords_cancelled [OF this, of ?convert ?db "[]" "''test-account''" False] pre msg
  show ?thesis
    by simp
qed

end
